theory Spec2Isabelle
  imports Complex_Main "HOL-Library.Log_Nat"
begin

section \<open>The campaign ledger of fund_it\<close>

text \<open>
  The repository holds three copies of one canister module: \<^verbatim>\<open>src/src/index.ts\<close>,
  \<^verbatim>\<open>src/unnamed/part_000\<close> and \<^verbatim>\<open>src/unnamed/part_001\<close>. They differ in the check of
  the proposer in \<^verbatim>\<open>createCampaign\<close>, in the check of the identifier's format in the
  two queries and in \<^verbatim>\<open>deleteCampaign\<close>, and in the wording of the error messages.
  The embedding takes the copy as a parameter, so every theorem quantified over
  \<open>v\<close> speaks about all three files.
\<close>

datatype variant = Index_ts | Part_000 | Part_001

subsection \<open>Strings\<close>

text \<open>
  A TypeScript string is a sequence of UTF-16 code units; a code unit is embedded as
  its number. \<open>str\<close> turns an ASCII literal into its code units.

  \<^verbatim>\<open>String.prototype.trim\<close> removes white space and line terminators at both ends:
  U+0009 to U+000D, U+0020, U+00A0, U+1680, U+2000 to U+200A, U+2028, U+2029, U+202F,
  U+205F, U+3000 and U+FEFF. All of them are single code units.
  \<^verbatim>\<open>substring(a, b)\<close> clamps its indices to the length and swaps them when \<open>a > b\<close>.
\<close>

type_synonym js_string = "nat list"

definition str :: "string \<Rightarrow> js_string" where
  "str t = map of_char t"

definition is_space :: "nat \<Rightarrow> bool" where
  "is_space c =
     (c \<in> set [0x09, 0x0A, 0x0B, 0x0C, 0x0D, 0x20, 0xA0, 0x1680,
               0x2000, 0x2001, 0x2002, 0x2003, 0x2004, 0x2005, 0x2006, 0x2007, 0x2008,
               0x2009, 0x200A, 0x2028, 0x2029, 0x202F, 0x205F, 0x3000, 0xFEFF])"

definition trim :: "js_string \<Rightarrow> js_string" where
  "trim t = rev (dropWhile is_space (rev (dropWhile is_space t)))"

definition substring :: "nat \<Rightarrow> nat \<Rightarrow> js_string \<Rightarrow> js_string" where
  "substring a b t = take (max a b - min a b) (drop (min a b) t)"

text \<open>
  \<^verbatim>\<open>const generateId = () => ("" + Math.random()).substring(2, 7)\<close>. The argument
  \<open>rnd\<close> is the text of the random number drawn for the call, for example
  \<^verbatim>\<open>"0.7312946"\<close>. Nothing else enters the identifier: the storage is not consulted.
\<close>

definition generateId :: "js_string \<Rightarrow> js_string" where
  "generateId rnd = substring 2 7 rnd"

text \<open>
  The test \<^verbatim>\<open>/^[a-f\d]{5}$/.test(id)\<close> of index.ts: exactly five code units, each a
  decimal digit (48 to 57) or one of \<^verbatim>\<open>a\<close> to \<^verbatim>\<open>f\<close> (97 to 102).
\<close>

definition hex_or_digit :: "nat \<Rightarrow> bool" where
  "hex_or_digit c = (48 \<le> c \<and> c \<le> 57 \<or> 97 \<le> c \<and> c \<le> 102)"

definition id_format_ok :: "js_string \<Rightarrow> bool" where
  "id_format_ok i = (length i = 5 \<and> list_all hex_or_digit i)"

subsection \<open>Numbers\<close>

text \<open>
  A TypeScript \<^verbatim>\<open>number\<close> is an IEEE 754 binary64 value: \<^verbatim>\<open>NaN\<close>, the two
  infinities, the two zeros, or a finite non-zero double. Sums and products are rounded
  to the nearest double, ties to the even mantissa.

  \<open>round_fin x\<close> is the rounding of the real \<open>x\<close> before the overflow test: with
  \<open>k = ilog2 x\<close> the binary exponent of \<open>x\<close> (the integer with
  \<open>2 powi k \<le> \<bar>x\<bar> < 2 powi (k + 1)\<close>, read off the bit length of \<open>\<lfloor>\<bar>x\<bar>\<rfloor>\<close> or of
  \<open>\<lceil>1 / \<bar>x\<bar>\<rceil> - 1\<close>), the spacing of the doubles around \<open>x\<close>
  is \<open>2 powi expo x\<close>, where \<open>expo x = max (k - 52) (- 1074)\<close> (53 bits of
  mantissa; the spacing of the subnormal numbers is \<open>2 powi - 1074\<close>), and \<open>x\<close> is
  rounded to the nearest multiple of the spacing. A real is a double when rounding
  leaves it fixed and it lies below \<open>2 ^ 1024\<close>.
\<close>

definition ilog2 :: "real \<Rightarrow> int" where
  "ilog2 x = (if 1 \<le> \<bar>x\<bar> then bitlen \<lfloor>\<bar>x\<bar>\<rfloor> - 1 else - bitlen (\<lceil>1 / \<bar>x\<bar>\<rceil> - 1))"

definition expo :: "real \<Rightarrow> int" where
  "expo x = max (ilog2 x - 52) (- 1074)"

definition round_even :: "real \<Rightarrow> int" where
  "round_even q =
     (let f = \<lfloor>q\<rfloor>; r = q - of_int f
      in if r < 1 / 2 then f else if 1 / 2 < r then f + 1 else if even f then f else f + 1)"

definition round_fin :: "real \<Rightarrow> real" where
  "round_fin x =
     (if x = 0 then 0 else of_int (round_even (x / 2 powi expo x)) * 2 powi expo x)"

definition is_double :: "real \<Rightarrow> bool" where
  "is_double x = (round_fin x = x \<and> \<bar>x\<bar> < 2 ^ 1024)"

typedef double = "{x::real. is_double x}"
  by (rule exI [of _ 0]) (simp add: is_double_def round_fin_def)

text \<open>
  \<open>Fin d\<close> is the finite double \<open>d\<close>, with \<open>Fin\<close> of zero the positive zero;
  \<open>NegZero\<close> is \<^verbatim>\<open>-0\<close>.
\<close>

datatype js_number = NaN | NegInf | NegZero | Fin double | PosInf

text \<open>
  \<open>round64 x\<close> is the double nearest to the real \<open>x\<close>: an infinity when the rounded
  value reaches \<open>2 ^ 1024\<close>, and a zero with the sign of \<open>x\<close> when \<open>x\<close> rounds to
  zero. \<open>num x\<close> is the value of the numeric literal \<open>x\<close> of the source.
\<close>

definition round64 :: "real \<Rightarrow> js_number" where
  "round64 x =
     (let r = round_fin x
      in if 2 ^ 1024 \<le> r then PosInf
         else if r \<le> - (2 ^ 1024) then NegInf
         else if r = 0 \<and> x < 0 then NegZero
         else Fin (Abs_double r))"

definition num :: "real \<Rightarrow> js_number" where
  "num x = round64 x"

text \<open>
  The comparisons \<^verbatim>\<open><\<close>, \<^verbatim>\<open><=\<close>, \<^verbatim>\<open>>\<close>, \<^verbatim>\<open>>=\<close>: false when an operand is
  \<^verbatim>\<open>NaN\<close>; otherwise \<^verbatim>\<open>-Infinity\<close> (tier 0) lies below the finite values (tier 1,
  compared by value, the two zeros equal) and these below \<^verbatim>\<open>Infinity\<close> (tier 2).
\<close>

definition tier :: "js_number \<Rightarrow> nat" where
  "tier a = (case a of NegInf \<Rightarrow> 0 | PosInf \<Rightarrow> 2 | _ \<Rightarrow> 1)"

definition val :: "js_number \<Rightarrow> real" where
  "val a = (case a of Fin d \<Rightarrow> Rep_double d | _ \<Rightarrow> 0)"

definition js_lt :: "js_number \<Rightarrow> js_number \<Rightarrow> bool" where
  "js_lt a b =
     (a \<noteq> NaN \<and> b \<noteq> NaN \<and> (tier a < tier b \<or> tier a = tier b \<and> val a < val b))"

definition js_le :: "js_number \<Rightarrow> js_number \<Rightarrow> bool" where
  "js_le a b =
     (a \<noteq> NaN \<and> b \<noteq> NaN \<and> (tier a < tier b \<or> tier a = tier b \<and> val a \<le> val b))"

definition js_gt :: "js_number \<Rightarrow> js_number \<Rightarrow> bool" where
  "js_gt a b = js_lt b a"

definition js_ge :: "js_number \<Rightarrow> js_number \<Rightarrow> bool" where
  "js_ge a b = js_le b a"

definition is_inf :: "js_number \<Rightarrow> bool" where
  "is_inf a = (a = PosInf \<or> a = NegInf)"

definition is_zero :: "js_number \<Rightarrow> bool" where
  "is_zero a = (case a of NegZero \<Rightarrow> True | Fin d \<Rightarrow> Rep_double d = 0 | _ \<Rightarrow> False)"

definition is_neg :: "js_number \<Rightarrow> bool" where
  "is_neg a = (case a of NegInf \<Rightarrow> True | NegZero \<Rightarrow> True | Fin d \<Rightarrow> Rep_double d < 0
               | _ \<Rightarrow> False)"

definition js_finite :: "js_number \<Rightarrow> bool" where
  "js_finite a = (case a of NegZero \<Rightarrow> True | Fin d \<Rightarrow> True | _ \<Rightarrow> False)"

text \<open>\<^verbatim>\<open>!x\<close> for a number: true of \<^verbatim>\<open>NaN\<close> and of both zeros.\<close>

definition js_falsy :: "js_number \<Rightarrow> bool" where
  "js_falsy a = (a = NaN \<or> is_zero a)"

text \<open>
  \<^verbatim>\<open>a + b\<close>: \<^verbatim>\<open>NaN\<close> is absorbing and \<^verbatim>\<open>Infinity + -Infinity\<close> is \<^verbatim>\<open>NaN\<close>;
  \<^verbatim>\<open>-0 + -0\<close> is \<^verbatim>\<open>-0\<close>, any other exact zero sum is \<^verbatim>\<open>+0\<close>; otherwise the real
  sum is rounded.
\<close>

definition js_add :: "js_number \<Rightarrow> js_number \<Rightarrow> js_number" where
  "js_add a b =
     (if a = NaN \<or> b = NaN then NaN
      else if a = PosInf then (if b = NegInf then NaN else PosInf)
      else if a = NegInf then (if b = PosInf then NaN else NegInf)
      else if b = PosInf then PosInf
      else if b = NegInf then NegInf
      else if a = NegZero \<and> b = NegZero then NegZero
      else if val a + val b = 0 then num 0
      else round64 (val a + val b))"

text \<open>
  \<^verbatim>\<open>a * b\<close>: \<^verbatim>\<open>NaN\<close> is absorbing and an infinity times a zero is \<^verbatim>\<open>NaN\<close>; the
  sign is the product of the signs; otherwise the real product is rounded.
\<close>

definition js_mul :: "js_number \<Rightarrow> js_number \<Rightarrow> js_number" where
  "js_mul a b =
     (if a = NaN \<or> b = NaN then NaN
      else if is_inf a \<or> is_inf b
        then (if is_zero a \<or> is_zero b then NaN
              else if is_neg a \<noteq> is_neg b then NegInf else PosInf)
      else if val a * val b = 0 then (if is_neg a \<noteq> is_neg b then NegZero else num 0)
      else round64 (val a * val b))"

subsection \<open>Values\<close>

text \<open>
  The parameter \<^verbatim>\<open>_proposer\<close> is declared \<^verbatim>\<open>Principal\<close> (a type of the azle library, not
  of this repository). The source tests it with \<^verbatim>\<open>!_proposer\<close> and, in \<^verbatim>\<open>index.ts\<close>, with
  \<^verbatim>\<open>typeof _proposer !== "string"\<close>, so the embedding keeps the three shapes these tests
  tell apart: a missing value, a string, and an object. A value of the declared type is
  a Principal object.
\<close>

datatype js_principal =
    PUndefined              \<comment> \<open>\<^verbatim>\<open>undefined\<close> or \<^verbatim>\<open>null\<close>\<close>
  | PString js_string       \<comment> \<open>a value whose \<^verbatim>\<open>typeof\<close> is \<^verbatim>\<open>"string"\<close>\<close>
  | PObject string          \<comment> \<open>a Principal object, named by its text form\<close>

fun truthy :: "js_principal \<Rightarrow> bool" where
  "truthy PUndefined = False"
| "truthy (PString t) = (t \<noteq> [])"
| "truthy (PObject t) = True"

fun typeof_string :: "js_principal \<Rightarrow> bool" where
  "typeof_string (PString t) = True"
| "typeof_string PUndefined = False"
| "typeof_string (PObject t) = False"

text \<open>
  Modelled from the spec: the declarations of \<^verbatim>\<open>Campaign\<close> and \<^verbatim>\<open>Donor\<close> are imported
  from \<^verbatim>\<open>./types\<close>, which is not among the sources. Their fields are those of the data
  model of the specification; they are also exactly the fields that the object literals
  in \<^verbatim>\<open>createCampaign\<close> and \<^verbatim>\<open>donateCampaign\<close> set. The field \<^verbatim>\<open>id\<close> is named
  \<open>id_donor\<close> and \<open>id_campaign\<close> here.
\<close>

record Donor =
  id_donor :: js_principal
  amount :: js_number

record Campaign =
  id_campaign :: js_string
  proposer :: js_principal
  title :: js_string
  description :: js_string
  goal :: js_number
  totalDonations :: js_number
  deadline :: js_number
  donors :: "Donor list"

text \<open>
  The failure results. The source returns \<^verbatim>\<open>Result.Err\<close> with a message; each
  constructor stands for the messages of one failure:
  \<^item> \<open>InvalidProposer\<close>: \<^verbatim>\<open>"Invalid proposer"\<close> (index.ts), \<^verbatim>\<open>"Proposer is required"\<close>;
  \<^item> \<open>TitleRequired\<close>: \<^verbatim>\<open>"Title is required"\<close>;
  \<^item> \<open>DescriptionRequired\<close>: \<^verbatim>\<open>"Description is required"\<close>;
  \<^item> \<open>InvalidGoal\<close>: \<^verbatim>\<open>"Goal should be greater than 0"\<close>;
  \<^item> \<open>NotFound i\<close>: \<^verbatim>\<open>"The campaign with id=... is not found"\<close> and its variants
    (\<^verbatim>\<open>"Campaign not found"\<close>, \<^verbatim>\<open>"bhvbsdkv"\<close> in the deadline query);
  \<^item> \<open>CampaignEnded\<close>: \<^verbatim>\<open>"This campaign has ended"\<close>;
  \<^item> \<open>GoalExceeded\<close>: \<^verbatim>\<open>"Donation amount is greater than the goal"\<close>;
  \<^item> \<open>InvalidId\<close>: \<^verbatim>\<open>"Invalid campaign ID"\<close> (index.ts only).
\<close>

datatype error =
    InvalidProposer
  | TitleRequired
  | DescriptionRequired
  | InvalidGoal
  | NotFound js_string
  | CampaignEnded
  | GoalExceeded
  | InvalidId

subsection \<open>The storage\<close>

text \<open>
  Modelled from the spec: \<^verbatim>\<open>StableBTreeMap\<close> is a class of the azle library and is not
  part of the repository. The specification describes it as a durable map with
  \<^verbatim>\<open>get(key)\<close>, \<^verbatim>\<open>insert(key, value)\<close> and \<^verbatim>\<open>remove(key)\<close>, read again by every
  operation. The source creates it as \<^verbatim>\<open>new StableBTreeMap<string, Campaign>(0, 44, 1024)\<close>,
  a map in stable memory with byte bounds for keys and values, and writes every changed
  record back with \<^verbatim>\<open>insert\<close>. So \<^verbatim>\<open>get\<close> yields a copy of the stored record: a change
  made to the copy reaches the map only through \<^verbatim>\<open>insert\<close>. The byte bounds and
  failures of the map itself are not modelled.
\<close>

type_synonym storage = "js_string \<rightharpoonup> Campaign"

definition storage_get :: "storage \<Rightarrow> js_string \<Rightarrow> Campaign option" where
  "storage_get s k = s k"

definition storage_insert :: "storage \<Rightarrow> js_string \<Rightarrow> Campaign \<Rightarrow> storage" where
  "storage_insert s k c = s(k \<mapsto> c)"

definition storage_remove :: "storage \<Rightarrow> js_string \<Rightarrow> Campaign option \<times> storage" where
  "storage_remove s k = (s k, s(k := None))"


subsection \<open>The guards\<close>

text \<open>
  The guard that opens \<^verbatim>\<open>getCampaign\<close>, \<^verbatim>\<open>getDeadlineByCampaignId\<close> and
  \<^verbatim>\<open>deleteCampaign\<close> in index.ts,
  \<^verbatim>\<open>!id || typeof id !== "string" || !/^[a-f\d]{5}$/.test(id)\<close>; the other two files have
  no such guard. The identifier is a string by its declared type.
\<close>

definition id_rejected :: "variant \<Rightarrow> js_string \<Rightarrow> bool" where
  "id_rejected v i = (case v of
       Index_ts \<Rightarrow> i = [] \<or> \<not> id_format_ok i
     | Part_000 \<Rightarrow> False
     | Part_001 \<Rightarrow> False)"

text \<open>
  The first guard of \<^verbatim>\<open>createCampaign\<close>:
  \<^verbatim>\<open>!_proposer || typeof _proposer !== "string"\<close> in index.ts, \<^verbatim>\<open>!_proposer\<close> in
  the other two files.
\<close>

definition proposer_rejected :: "variant \<Rightarrow> js_principal \<Rightarrow> bool" where
  "proposer_rejected v p = (case v of
       Index_ts \<Rightarrow> \<not> truthy p \<or> \<not> typeof_string p
     | Part_000 \<Rightarrow> \<not> truthy p
     | Part_001 \<Rightarrow> \<not> truthy p)"

subsection \<open>The operations\<close>

text \<open>
  Every operation takes the storage and returns its result together with the storage
  it leaves behind. \<open>now\<close> is \<^verbatim>\<open>Number(ic.time())\<close>, the clock reading as a double.
  The deadline is \<^verbatim>\<open>presentTime + _deadline * 86400 * 1_000_000_000\<close>, the products
  taken from the left.
\<close>

definition createCampaign ::
  "variant \<Rightarrow> js_number \<Rightarrow> js_string \<Rightarrow> js_principal \<Rightarrow> js_string \<Rightarrow> js_string
     \<Rightarrow> js_number \<Rightarrow> js_number \<Rightarrow> storage \<Rightarrow> (error + Campaign) \<times> storage" where
  "createCampaign v now rnd p_proposer p_title p_description p_goal p_deadline s =
     (if proposer_rejected v p_proposer then (Inl InvalidProposer, s)
      else if p_title = [] \<or> length (trim p_title) = 0 then (Inl TitleRequired, s)
      else if p_description = [] \<or> length (trim p_description) = 0
        then (Inl DescriptionRequired, s)
      else if js_falsy p_goal \<or> js_le p_goal (num 0) then (Inl InvalidGoal, s)
      else
        let presentTime = now;
            nanoSeconds = js_mul (js_mul p_deadline (num 86400)) (num 1000000000);
            endDate = js_add presentTime nanoSeconds;
            campaign = \<lparr> id_campaign = generateId rnd, proposer = p_proposer,
                         title = p_title, description = p_description, goal = p_goal,
                         totalDonations = num 0, deadline = endDate, donors = [] \<rparr>
        in (Inr campaign, storage_insert s (id_campaign campaign) campaign))"

definition updateOnlyTitleandDescription ::
  "js_string \<Rightarrow> js_string \<Rightarrow> js_string \<Rightarrow> storage \<Rightarrow> (error + Campaign) \<times> storage" where
  "updateOnlyTitleandDescription p_campaignId p_title p_description s =
     (case storage_get s p_campaignId of
        Some existingCampaign \<Rightarrow>
          let retitled = existingCampaign\<lparr> title := p_title \<rparr>;
              redescribed = retitled\<lparr> description := p_description \<rparr>
          in (Inr redescribed, storage_insert s p_campaignId redescribed)
      | None \<Rightarrow> (Inl (NotFound p_campaignId), s))"

text \<open>
  \<^verbatim>\<open>donateCampaign\<close> pushes the new donor onto the record it has read before it
  compares with the goal; \<open>pushed\<close> is that record. On the failure branch the function
  returns without \<^verbatim>\<open>insert\<close>, and \<open>pushed\<close> is dropped.
\<close>

definition donateCampaign ::
  "js_number \<Rightarrow> js_string \<Rightarrow> js_principal \<Rightarrow> js_number \<Rightarrow> storage
     \<Rightarrow> (error + Campaign) \<times> storage" where
  "donateCampaign now p_campaignId p_donorId p_amount s =
     (case storage_get s p_campaignId of
        Some existingCampaign \<Rightarrow>
          if js_gt now (deadline existingCampaign) then (Inl CampaignEnded, s)
          else
            let newDonor = \<lparr> id_donor = p_donorId, amount = p_amount \<rparr>;
                pushed = existingCampaign\<lparr> donors := donors existingCampaign @ [newDonor] \<rparr>
            in if js_ge (goal pushed) (js_add (totalDonations pushed) p_amount)
               then
                 let added = pushed\<lparr> totalDonations :=
                                         js_add (totalDonations pushed) p_amount \<rparr>
                 in (Inr added, storage_insert s p_campaignId added)
               else (Inl GoalExceeded, s)
      | None \<Rightarrow> (Inl (NotFound p_campaignId), s))"

definition getCampaign :: "variant \<Rightarrow> js_string \<Rightarrow> storage \<Rightarrow> error + Campaign" where
  "getCampaign v i s =
     (if id_rejected v i then Inl InvalidId
      else case storage_get s i of
             Some existingCampaign \<Rightarrow> Inr existingCampaign
           | None \<Rightarrow> Inl (NotFound i))"

definition getDeadlineByCampaignId ::
  "variant \<Rightarrow> js_string \<Rightarrow> storage \<Rightarrow> error + js_number" where
  "getDeadlineByCampaignId v i s =
     (if id_rejected v i then Inl InvalidId
      else case storage_get s i of
             Some existingCampaign \<Rightarrow> Inr (deadline existingCampaign)
           | None \<Rightarrow> Inl (NotFound i))"

definition deleteCampaign ::
  "variant \<Rightarrow> js_string \<Rightarrow> storage \<Rightarrow> (error + Campaign) \<times> storage" where
  "deleteCampaign v i s =
     (if id_rejected v i then (Inl InvalidId, s)
      else case storage_remove s i of
             (Some deletedCampaign, s') \<Rightarrow> (Inr deletedCampaign, s')
           | (None, s') \<Rightarrow> (Inl (NotFound i), s'))"

subsection \<open>Sequences of calls\<close>

text \<open>
  A run of donations to one campaign: each element is the clock reading of the call,
  the donor and the amount. The results are collected in call order.
\<close>

fun donate_seq ::
  "js_string \<Rightarrow> (js_number \<times> js_principal \<times> js_number) list \<Rightarrow> storage
     \<Rightarrow> (error + Campaign) list \<times> storage" where
  "donate_seq i [] s = ([], s)"
| "donate_seq i ((now, d, a) # rest) s =
     (let (r, s1) = donateCampaign now i d a s;
          (rs, s2) = donate_seq i rest s1
      in (r # rs, s2))"


definition amounts :: "(js_number \<times> js_principal \<times> js_number) list \<Rightarrow> js_number list" where
  "amounts ds = map (\<lambda>(now, d, a). a) ds"

text \<open>
  The sum of a list of amounts as the program forms it: starting from \<open>t\<close>, one
  rounded addition per amount, in list order.
\<close>

definition running_sum :: "js_number \<Rightarrow> js_number list \<Rightarrow> js_number" where
  "running_sum t xs = foldl js_add t xs"

definition accepted :: "error + Campaign \<Rightarrow> bool" where
  "accepted r = (case r of Inl e \<Rightarrow> False | Inr c \<Rightarrow> True)"

text \<open>
  The six exported functions as calls, and the storage a call leaves behind. A trace is
  a list of calls, each with the clock reading and the random text of its moment.
\<close>

datatype call =
    CreateCampaign js_principal js_string js_string js_number js_number
  | UpdateOnlyTitleandDescription js_string js_string js_string
  | DonateCampaign js_string js_principal js_number
  | GetCampaign js_string
  | GetDeadlineByCampaignId js_string
  | DeleteCampaign js_string

fun exec :: "variant \<Rightarrow> js_number \<Rightarrow> js_string \<Rightarrow> call \<Rightarrow> storage \<Rightarrow> storage" where
  "exec v now rnd (CreateCampaign p t d g dl) s = snd (createCampaign v now rnd p t d g dl s)"
| "exec v now rnd (UpdateOnlyTitleandDescription i t d) s =
     snd (updateOnlyTitleandDescription i t d s)"
| "exec v now rnd (DonateCampaign i p a) s = snd (donateCampaign now i p a s)"
| "exec v now rnd (GetCampaign i) s = s"
| "exec v now rnd (GetDeadlineByCampaignId i) s = s"
| "exec v now rnd (DeleteCampaign i) s = snd (deleteCampaign v i s)"

fun run :: "variant \<Rightarrow> (js_number \<times> js_string \<times> call) list \<Rightarrow> storage \<Rightarrow> storage" where
  "run v [] s = s"
| "run v ((now, rnd, k) # ks) s = run v ks (exec v now rnd k s)"

fun is_create :: "call \<Rightarrow> bool" where
  "is_create (CreateCampaign p t d g dl) = True"
| "is_create k = False"

fun amount_nonneg :: "call \<Rightarrow> bool" where
  "amount_nonneg (DonateCampaign i p a) = js_le (num 0) a"
| "amount_nonneg k = True"

definition amounts_nonneg :: "(js_number \<times> js_string \<times> call) list \<Rightarrow> bool" where
  "amounts_nonneg tr = list_all (\<lambda>(now, rnd, k). amount_nonneg k) tr"

subsection \<open>Sample data\<close>

definition alice :: js_principal where
  "alice = PObject ''aaaaa-aa''"

definition bob :: js_principal where
  "bob = PObject ''2vxsx-fae''"

definition id12345 :: js_string where
  "id12345 = str ''12345''"

definition camp60 :: Campaign where
  "camp60 = \<lparr> id_campaign = id12345, proposer = alice, title = str ''Well'',
              description = str ''A well for the village'', goal = num 100,
              totalDonations = num 60, deadline = num 5000,
              donors = [\<lparr> id_donor = bob, amount = num 60 \<rparr>] \<rparr>"

definition store60 :: storage where
  "store60 = Map.empty(id12345 \<mapsto> camp60)"

definition camp50 :: Campaign where
  "camp50 = \<lparr> id_campaign = id12345, proposer = alice, title = str ''Well'',
              description = str ''A well for the village'', goal = num 100,
              totalDonations = num 50, deadline = num 5000,
              donors = [\<lparr> id_donor = bob, amount = num 60 \<rparr>,
                        \<lparr> id_donor = alice, amount = num (- 10) \<rparr>] \<rparr>"

definition camp_school :: Campaign where
  "camp_school = \<lparr> id_campaign = id12345, proposer = alice, title = str ''School'',
                   description = str ''A school'', goal = num 50, totalDonations = num 0,
                   deadline = num 172800000001000, donors = [] \<rparr>"

definition camp_fresh :: Campaign where
  "camp_fresh = \<lparr> id_campaign = id12345, proposer = alice, title = str ''Well'',
                  description = str ''A well'', goal = num 100, totalDonations = num 0,
                  deadline = num 86400000001000, donors = [] \<rparr>"



definition camp_sixty :: Campaign where
  "camp_sixty = camp_fresh\<lparr> totalDonations := num 60,
                    donors := [\<lparr> id_donor = bob, amount = num 60 \<rparr>] \<rparr>"

definition camp_full :: Campaign where
  "camp_full = camp_fresh\<lparr> totalDonations := num 100,
                   donors := [\<lparr> id_donor = bob, amount = num 60 \<rparr>,
                              \<lparr> id_donor = alice, amount = num 40 \<rparr>] \<rparr>"

definition trace_donate :: "(js_number \<times> js_string \<times> call) list" where
  "trace_donate =
     [(num 1000, str ''0.1234567'',
         CreateCampaign alice (str ''Well'') (str ''A well'') (num 100) (num 1)),
      (num 2000, str ''0.7654321'', DonateCampaign id12345 bob (num 60))]"

definition trace_negative :: "(js_number \<times> js_string \<times> call) list" where
  "trace_negative =
     [(num 1000, str ''0.1234567'',
         CreateCampaign alice (str ''Well'') (str ''A well'') (num 100) (num 1)),
      (num 2000, str ''0.7654321'', DonateCampaign id12345 bob (num (- 5)))]"

definition camp_negative :: Campaign where
  "camp_negative = camp_fresh\<lparr> totalDonations := num (- 5),
                       donors := [\<lparr> id_donor = bob, amount = num (- 5) \<rparr>] \<rparr>"

definition camp_bob :: Campaign where
  "camp_bob = \<lparr> id_campaign = id12345, proposer = bob, title = str ''Well'',
                description = str ''A well'', goal = num 100, totalDonations = num 0,
                deadline = num 86400000001000, donors = [] \<rparr>"

definition camp_past :: Campaign where
  "camp_past = \<lparr> id_campaign = id12345, proposer = bob, title = str ''Well'',
                 description = str ''A well'', goal = num 100, totalDonations = num 0,
                 deadline = num (- 86399999999000), donors = [] \<rparr>"

text \<open>
  A clock reading of 1.7e18 nanoseconds (a moment in November 2023) and a day count of
  \<open>- (2 powi - 40)\<close>, about \<open>- 9.1e-13\<close> days, that is \<open>- 78.6\<close> nanoseconds. The
  doubles around 1.7e18 are 256 apart.
\<close>

definition now_2023 :: js_number where
  "now_2023 = num 1700000000000000000"

definition tiny_days :: js_number where
  "tiny_days = num (- (1 / 2 ^ 40))"

definition camp_tiny :: Campaign where
  "camp_tiny = \<lparr> id_campaign = id12345, proposer = bob, title = str ''Well'',
                 description = str ''A well'', goal = num 100, totalDonations = num 0,
                 deadline = now_2023, donors = [] \<rparr>"

text \<open>A campaign whose total and goal are \<open>2 ^ 53\<close>, where the doubles are 2 apart.\<close>

definition camp_2_53 :: Campaign where
  "camp_2_53 = \<lparr> id_campaign = id12345, proposer = alice, title = str ''Well'',
                 description = str ''A well'', goal = num 9007199254740992,
                 totalDonations = num 9007199254740992, deadline = num 5000,
                 donors = [] \<rparr>"

section \<open>Properties\<close>

subsection \<open>Rounding\<close>

lemma bitlen_pos: "0 < n \<Longrightarrow> 1 \<le> bitlen n"
  using bitlen_eq_zero_iff [of n] bitlen_nonneg [of n] by linarith

lemma ilog2_bounds:
  assumes "x \<noteq> 0"
  shows "2 powi ilog2 x \<le> \<bar>x\<bar>" and "\<bar>x\<bar> < 2 powi (ilog2 x + 1)"
proof -
  define y where "y = \<bar>x\<bar>"
  have y: "0 < y" using assms by (simp add: y_def)
  have "2 powi ilog2 x \<le> y \<and> y < 2 powi (ilog2 x + 1)"
  proof (cases "1 \<le> y")
    case True
    define n where "n = \<lfloor>y\<rfloor>"
    define b where "b = bitlen n"
    from True have n: "0 < n" by (simp add: n_def)
    then have b: "1 \<le> b" unfolding b_def by (rule bitlen_pos)
    from bitlen_bounds [OF n] have lo: "2 ^ nat (b - 1) \<le> n" and hi: "n < 2 ^ nat b"
      by (simp_all add: b_def)
    have il: "ilog2 x = b - 1" using True by (simp add: ilog2_def y_def n_def b_def)
    have "(2::real) powi (b - 1) = of_int (2 ^ nat (b - 1))"
      using b by (simp add: power_int_def)
    also have "\<dots> \<le> of_int n" using lo by (simp only: of_int_le_iff)
    also have "\<dots> \<le> y" by (simp add: n_def)
    finally have 1: "2 powi (b - 1) \<le> y" .
    have "y < of_int (n + 1)" by (simp add: n_def)
    also have "\<dots> \<le> of_int (2 ^ nat b)" using hi by (simp only: of_int_le_iff)
    also have "\<dots> = (2::real) powi b" using b by (simp add: power_int_def)
    finally have 2: "y < 2 powi b" .
    from 1 2 show ?thesis by (simp add: il)
  next
    case False
    define z where "z = 1 / y"
    define n where "n = \<lceil>z\<rceil> - 1"
    define b where "b = bitlen n"
    from False y have z: "1 < z" by (simp add: z_def)
    then have "2 \<le> \<lceil>z\<rceil>" by (simp add: le_ceiling_iff)
    then have n: "0 < n" by (simp add: n_def)
    then have b: "1 \<le> b" unfolding b_def by (rule bitlen_pos)
    from bitlen_bounds [OF n] have lo: "2 ^ nat (b - 1) \<le> n" and hi: "n < 2 ^ nat b"
      by (simp_all add: b_def)
    have il: "ilog2 x = - b" using False by (simp add: ilog2_def y_def z_def n_def b_def)
    have "z \<le> of_int (n + 1)" by (simp add: n_def)
    also have "\<dots> \<le> of_int (2 ^ nat b)" using hi by (simp only: of_int_le_iff)
    also have "\<dots> = (2::real) ^ nat b" by simp
    finally have "1 / y \<le> 2 ^ nat b" by (simp add: z_def)
    then have "1 / 2 ^ nat b \<le> y" using y by (simp add: field_simps)
    moreover have "(2::real) powi (- b) = 1 / 2 ^ nat b"
      using b by (simp add: power_int_def power_one_over inverse_eq_divide)
    ultimately have 1: "2 powi (- b) \<le> y" by simp
    have "(2::real) ^ nat (b - 1) = of_int (2 ^ nat (b - 1))" by simp
    also have "\<dots> \<le> of_int n" using lo by (simp only: of_int_le_iff)
    also have "\<dots> < z" unfolding n_def by linarith
    finally have "2 ^ nat (b - 1) < 1 / y" by (simp add: z_def)
    then have "y < 1 / 2 ^ nat (b - 1)" using y by (simp add: field_simps)
    moreover have "(2::real) powi (- b + 1) = 1 / 2 ^ nat (b - 1)"
    proof (cases "b = 1")
      case True
      then show ?thesis by simp
    next
      case False
      with b have "- b + 1 < 0" "nat (- (- b + 1)) = nat (b - 1)" by simp_all
      then show ?thesis by (simp add: power_int_def power_one_over inverse_eq_divide)
    qed
    ultimately have 2: "y < 2 powi (- b + 1)" by simp
    from 1 2 show ?thesis by (simp add: il)
  qed
  then show "2 powi ilog2 x \<le> \<bar>x\<bar>" and "\<bar>x\<bar> < 2 powi (ilog2 x + 1)"
    by (simp_all add: y_def)
qed

lemma ilog2_eqI:
  assumes "2 powi k \<le> \<bar>x\<bar>" and "\<bar>x\<bar> < 2 powi (k + 1)"
  shows "ilog2 x = k"
proof -
  have "0 < (2::real) powi k" by simp
  with assms(1) have "0 < \<bar>x\<bar>" by linarith
  then have nz: "x \<noteq> 0" by simp
  from ilog2_bounds(2) [OF nz] assms(1) have "(2::real) powi k < 2 powi (ilog2 x + 1)"
    by linarith
  then have 1: "k < ilog2 x + 1"
    by (metis not_le power_int_increasing one_le_numeral)
  from ilog2_bounds(1) [OF nz] assms(2) have "(2::real) powi ilog2 x < 2 powi (k + 1)"
    by linarith
  then have 2: "ilog2 x < k + 1"
    by (metis not_le power_int_increasing one_le_numeral)
  from 1 2 show ?thesis by simp
qed

lemma ilog2_uminus [simp]: "ilog2 (- x) = ilog2 x"
  by (simp add: ilog2_def)

lemma expo_uminus [simp]: "expo (- x) = expo x"
  by (simp add: expo_def)

lemma ilog2_mono:
  assumes "x \<noteq> 0" and "\<bar>x\<bar> \<le> \<bar>y\<bar>"
  shows "ilog2 x \<le> ilog2 y"
proof -
  from assms have y: "y \<noteq> 0" by auto
  have "2 powi ilog2 x \<le> \<bar>x\<bar>" by (rule ilog2_bounds(1) [OF assms(1)])
  also have "\<dots> \<le> \<bar>y\<bar>" by fact
  also have "\<dots> < 2 powi (ilog2 y + 1)" by (rule ilog2_bounds(2) [OF y])
  finally have "(2::real) powi ilog2 x < 2 powi (ilog2 y + 1)" .
  then have "ilog2 x < ilog2 y + 1"
    by (metis not_le power_int_increasing one_le_numeral)
  then show ?thesis by simp
qed

lemma expo_mono: "x \<noteq> 0 \<Longrightarrow> \<bar>x\<bar> \<le> \<bar>y\<bar> \<Longrightarrow> expo x \<le> expo y"
  using ilog2_mono [of x y] by (simp add: expo_def)

lemma round_even_of_int [simp]: "round_even (of_int n) = n"
  by (simp add: round_even_def)

lemma round_even_0 [simp]: "round_even 0 = 0"
  by (simp add: round_even_def)

lemma round_even_bounds: "\<lfloor>q\<rfloor> \<le> round_even q" "round_even q \<le> \<lfloor>q\<rfloor> + 1"
  by (simp_all add: round_even_def Let_def)

lemma round_even_mono:
  assumes "q \<le> q'"
  shows "round_even q \<le> round_even q'"
proof (cases "\<lfloor>q\<rfloor> = \<lfloor>q'\<rfloor>")
  case True
  with assms show ?thesis by (auto simp: round_even_def Let_def)
next
  case False
  with assms have "\<lfloor>q\<rfloor> < \<lfloor>q'\<rfloor>" using floor_mono [OF assms] by linarith
  then have "round_even q \<le> \<lfloor>q'\<rfloor>" using round_even_bounds(2) [of q] by linarith
  also have "\<dots> \<le> round_even q'" by (rule round_even_bounds(1))
  finally show ?thesis .
qed

lemma round_even_uminus: "round_even (- q) = - round_even q"
proof (cases "q \<in> \<int>")
  case True
  then obtain n where "q = of_int n" by (auto elim: Ints_cases)
  then show ?thesis by (simp flip: of_int_minus)
next
  case False
  then have "q \<noteq> of_int \<lfloor>q\<rfloor>" by (metis Ints_of_int)
  then have fl: "\<lfloor>- q\<rfloor> = - \<lfloor>q\<rfloor> - 1"
    by (simp add: floor_minus ceiling_altdef)
  show ?thesis
    unfolding round_even_def Let_def fl
    by (auto simp: algebra_simps)
qed

lemma round_fin_uminus: "round_fin (- x) = - round_fin x"
  by (simp add: round_fin_def round_even_uminus)

lemma scaled_le:
  assumes "x \<le> 2 powi j" and "e \<le> j"
  shows "round_even (x / 2 powi e) \<le> 2 ^ nat (j - e)"
proof -
  have "x / 2 powi e \<le> 2 powi j / 2 powi e"
    using assms(1) by (simp add: divide_right_mono)
  also have "\<dots> = (2::real) powi (j - e)" by (simp add: power_int_diff)
  also have "\<dots> = of_int (2 ^ nat (j - e))"
    using assms(2) by (simp add: power_int_def)
  finally have "round_even (x / 2 powi e) \<le> round_even (of_int (2 ^ nat (j - e)))"
    by (rule round_even_mono)
  then show ?thesis by (simp only: round_even_of_int)
qed

lemma scaled_ge:
  assumes "2 powi j \<le> y" and "e \<le> j"
  shows "2 ^ nat (j - e) \<le> round_even (y / 2 powi e)"
proof -
  have "of_int (2 ^ nat (j - e)) = (2::real) powi (j - e)"
    using assms(2) by (simp add: power_int_def)
  also have "\<dots> = 2 powi j / 2 powi e" by (simp add: power_int_diff)
  also have "\<dots> \<le> y / 2 powi e"
    using assms(1) by (simp add: divide_right_mono)
  finally have "round_even (of_int (2 ^ nat (j - e))) \<le> round_even (y / 2 powi e)"
    by (rule round_even_mono)
  then show ?thesis by (simp only: round_even_of_int)
qed

lemma pow2_split: "e \<le> j \<Longrightarrow> of_int (2 ^ nat (j - e)) * 2 powi e = (2::real) powi j"
proof -
  assume "e \<le> j"
  then have "of_int (2 ^ nat (j - e)) = (2::real) powi (j - e)"
    by (simp add: power_int_def)
  then show ?thesis by (simp add: power_int_diff)
qed

lemma round_fin_le_pow2:
  assumes "x \<noteq> 0" and "x \<le> 2 powi j" and "expo x \<le> j"
  shows "round_fin x \<le> 2 powi j"
proof -
  have "of_int (round_even (x / 2 powi expo x)) * 2 powi expo x
          \<le> of_int (2 ^ nat (j - expo x)) * (2::real) powi expo x"
    using scaled_le [OF assms(2,3)] by (intro mult_right_mono) (simp_all flip: of_int_le_iff)
  then show ?thesis
    using assms(1,3) by (simp only: round_fin_def pow2_split if_False)
qed

lemma round_fin_ge_pow2:
  assumes "y \<noteq> 0" and "2 powi j \<le> y" and "expo y \<le> j"
  shows "2 powi j \<le> round_fin y"
proof -
  have "of_int (2 ^ nat (j - expo y)) * (2::real) powi expo y
          \<le> of_int (round_even (y / 2 powi expo y)) * 2 powi expo y"
    using scaled_ge [OF assms(2,3)] by (intro mult_right_mono) (simp_all flip: of_int_le_iff)
  then show ?thesis
    using assms(1,3) by (simp only: round_fin_def pow2_split if_False)
qed

lemma round_fin_nonneg:
  assumes "0 \<le> x"
  shows "0 \<le> round_fin x"
proof -
  have "0 \<le> x / 2 powi expo x" using assms by simp
  then have "0 \<le> \<lfloor>x / 2 powi expo x\<rfloor>" by simp
  then have "0 \<le> round_even (x / 2 powi expo x)"
    using round_even_bounds(1) [of "x / 2 powi expo x"] by linarith
  then show ?thesis by (simp add: round_fin_def)
qed

lemma round_fin_nonpos: "x \<le> 0 \<Longrightarrow> round_fin x \<le> 0"
  using round_fin_nonneg [of "- x"] by (simp add: round_fin_uminus)

lemma round_fin_mono_pos:
  assumes "0 < x" and "x \<le> y"
  shows "round_fin x \<le> round_fin y"
proof -
  from assms have nz: "x \<noteq> 0" "y \<noteq> 0" and ab: "\<bar>x\<bar> \<le> \<bar>y\<bar>" by simp_all
  have le: "expo x \<le> expo y" by (rule expo_mono [OF nz(1) ab])
  show ?thesis
  proof (cases "expo x = expo y")
    case True
    have "x / 2 powi expo y \<le> y / 2 powi expo y"
      using assms(2) by (simp add: divide_right_mono)
    then have "round_even (x / 2 powi expo y) \<le> round_even (y / 2 powi expo y)"
      by (rule round_even_mono)
    then have "of_int (round_even (x / 2 powi expo y)) * (2::real) powi expo y
                 \<le> of_int (round_even (y / 2 powi expo y)) * 2 powi expo y"
      by (intro mult_right_mono) simp_all
    with True nz show ?thesis by (simp add: round_fin_def)
  next
    case False
    with le have lt: "expo x < expo y" by simp
    define k where "k = ilog2 y"
    from lt have ey: "expo y = k - 52" and kx: "ilog2 x < k"
      by (auto simp: expo_def k_def max_def split: if_splits)
    from lt ey have ex: "expo x \<le> k" by simp
    have "\<bar>x\<bar> < 2 powi (ilog2 x + 1)" by (rule ilog2_bounds(2) [OF nz(1)])
    also have "\<dots> \<le> 2 powi k"
      using kx by (intro power_int_increasing) simp_all
    finally have xk: "x \<le> 2 powi k" using assms(1) by simp
    have "2 powi k \<le> \<bar>y\<bar>" unfolding k_def by (rule ilog2_bounds(1) [OF nz(2)])
    then have yk: "2 powi k \<le> y" using assms by simp
    have "round_fin x \<le> 2 powi k" by (rule round_fin_le_pow2 [OF nz(1) xk ex])
    also have "\<dots> \<le> round_fin y"
      by (rule round_fin_ge_pow2 [OF nz(2) yk]) (simp add: ey)
    finally show ?thesis .
  qed
qed

lemma round_fin_mono:
  assumes "x \<le> y"
  shows "round_fin x \<le> round_fin y"
proof -
  consider "0 < x" | "x \<le> 0" "0 \<le> y" | "y < 0" by linarith
  then show ?thesis
  proof cases
    case 1
    then show ?thesis by (rule round_fin_mono_pos [OF _ assms])
  next
    case 2
    then have "round_fin x \<le> 0" "0 \<le> round_fin y"
      by (simp_all add: round_fin_nonpos round_fin_nonneg)
    then show ?thesis by linarith
  next
    case 3
    then have "0 < - y" "- y \<le> - x" using assms by simp_all
    then have "round_fin (- y) \<le> round_fin (- x)" by (rule round_fin_mono_pos)
    then show ?thesis by (simp add: round_fin_uminus)
  qed
qed

lemma round_fin_dyadic:
  assumes "\<bar>m\<bar> \<le> 2 ^ 53" and "- 1074 \<le> e"
  shows "round_fin (of_int m * 2 powi e) = of_int m * 2 powi e"
proof (cases "m = 0")
  case True
  then show ?thesis by (simp add: round_fin_def)
next
  case False
  define x :: real where "x = of_int m * 2 powi e"
  have nz: "x \<noteq> 0" using False by (simp add: x_def)
  have ax: "\<bar>x\<bar> = of_int \<bar>m\<bar> * 2 powi e" by (simp add: x_def abs_mult)
  have "\<exists>n. x / 2 powi expo x = of_int n"
  proof (cases "\<bar>m\<bar> < 2 ^ 53")
    case True
    have "2 powi ilog2 x \<le> \<bar>x\<bar>" by (rule ilog2_bounds(1) [OF nz])
    also have "\<dots> < 2 ^ 53 * 2 powi e"
      unfolding ax using True by (intro mult_strict_right_mono) (simp_all flip: of_int_less_iff)
    also have "\<dots> = 2 powi (53 + e)" by (simp add: power_int_add)
    finally have "ilog2 x < 53 + e"
      by (metis not_le power_int_increasing one_le_numeral)
    with assms(2) have le: "expo x \<le> e" by (simp add: expo_def)
    have "x / 2 powi expo x = of_int m * 2 powi (e - expo x)"
      by (simp add: x_def power_int_diff)
    also have "\<dots> = of_int (m * 2 ^ nat (e - expo x))"
      using le by (simp add: power_int_def)
    finally show ?thesis by blast
  next
    case False
    with assms(1) have m: "\<bar>m\<bar> = 2 ^ 53" by simp
    have "\<bar>x\<bar> = 2 powi (53 + e)" unfolding ax m by (simp add: power_int_add)
    then have "ilog2 x = 53 + e"
      by (intro ilog2_eqI) (simp_all add: power_int_strict_increasing)
    with assms(2) have ex: "expo x = e + 1" by (simp add: expo_def)
    from m have ev: "even m" by (metis even_abs_add_iff even_add even_numeral even_power zero_less_numeral)
    have "(2::real) powi (e + 1) = 2 powi e * 2" by (simp add: power_int_add)
    then have "x / 2 powi expo x = x / (2 powi e * 2)" by (simp only: ex)
    also have "\<dots> = of_int m / 2" by (simp add: x_def)
    also have "\<dots> = of_int (m div 2)" using ev by (simp add: real_of_int_div)
    finally show ?thesis by blast
  qed
  then obtain n where n: "x / 2 powi expo x = of_int n" ..
  then have "of_int n * 2 powi expo x = x" by (simp add: field_simps)
  with nz n have "round_fin x = x" by (simp add: round_fin_def)
  then show ?thesis by (simp add: x_def)
qed

lemma round_fin_mantissa:
  "\<bar>round_even (x / 2 powi expo x)\<bar> \<le> 2 ^ 53"
proof (cases "x = 0")
  case True
  then show ?thesis by simp
next
  case False
  have "\<bar>x\<bar> < 2 powi (ilog2 x + 1)" by (rule ilog2_bounds(2) [OF False])
  also have "\<dots> \<le> 2 powi (expo x + 53)"
    by (intro power_int_increasing) (simp_all add: expo_def)
  finally have b: "\<bar>x\<bar> \<le> 2 powi (expo x + 53)" by simp
  have le: "expo x \<le> expo x + 53" by simp
  have n: "nat (expo x + 53 - expo x) = 53" by simp
  from b have "x \<le> 2 powi (expo x + 53)" by simp
  from scaled_le [OF this le] have up: "round_even (x / 2 powi expo x) \<le> 2 ^ 53"
    by (simp only: n)
  from b have "- x \<le> 2 powi (expo x + 53)" by simp
  from scaled_le [OF this le] have "round_even (- x / 2 powi expo x) \<le> 2 ^ 53"
    by (simp only: n)
  then have "- round_even (x / 2 powi expo x) \<le> 2 ^ 53"
    by (simp add: round_even_uminus flip: minus_divide_left)
  with up show ?thesis by linarith
qed

lemma round_fin_idem: "round_fin (round_fin x) = round_fin x"
proof (cases "x = 0")
  case True
  then show ?thesis by (simp add: round_fin_def)
next
  case False
  have "- 1074 \<le> expo x" by (simp add: expo_def)
  from round_fin_dyadic [OF round_fin_mantissa this, of x] False
  show ?thesis by (simp add: round_fin_def)
qed

lemma is_double_dyadic:
  assumes "\<bar>m\<bar> < 2 ^ 53" and "- 1074 \<le> e" and "e \<le> 971"
  shows "is_double (of_int m * 2 powi e)"
proof -
  have "\<bar>of_int m * 2 powi e\<bar> = of_int \<bar>m\<bar> * (2::real) powi e" by (simp add: abs_mult)
  also have "\<dots> \<le> of_int \<bar>m\<bar> * 2 powi 971"
    using assms(3) by (intro mult_left_mono power_int_increasing) simp_all
  also have "\<dots> < 2 ^ 53 * 2 powi 971"
    using assms(1) by (intro mult_strict_right_mono) (simp_all flip: of_int_less_iff)
  also have "\<dots> = 2 ^ 1024" by simp
  finally have "\<bar>of_int m * 2 powi e\<bar> < (2::real) ^ 1024" .
  moreover from assms(1) have "\<bar>m\<bar> \<le> 2 ^ 53" by simp
  ultimately show ?thesis
    using round_fin_dyadic [OF _ assms(2), of m] by (simp add: is_double_def)
qed


subsection \<open>Numbers\<close>

lemma is_double_0 [simp]: "is_double 0"
  by (simp add: is_double_def round_fin_def)

lemma Rep_double_is_double [simp]: "is_double (Rep_double d)"
  using Rep_double [of d] by simp

lemma Rep_Abs_double [simp]: "is_double x \<Longrightarrow> Rep_double (Abs_double x) = x"
  by (simp add: Abs_double_inverse)

lemma Abs_double_eq_iff [simp]:
  "is_double x \<Longrightarrow> is_double y \<Longrightarrow> Abs_double x = Abs_double y \<longleftrightarrow> x = y"
  by (simp add: Abs_double_inject)

lemma is_double_round_fin: "\<bar>round_fin x\<bar> < 2 ^ 1024 \<Longrightarrow> is_double (round_fin x)"
  by (simp add: is_double_def round_fin_idem)

lemma round_fin_double: "is_double x \<Longrightarrow> round_fin x = x"
  by (simp add: is_double_def)

lemma round64_double: "is_double x \<Longrightarrow> round64 x = Fin (Abs_double x)"
  by (auto simp: round64_def Let_def is_double_def)

lemma is_double_of_int: "\<bar>m\<bar> < 2 ^ 53 \<Longrightarrow> is_double (of_int m)"
  using is_double_dyadic [of m 0] by simp

lemma is_double_numeral [simp]:
  "numeral n < (2::int) ^ 53 \<Longrightarrow> is_double (numeral n)"
  using is_double_of_int [of "numeral n"] by simp

lemma is_double_neg_numeral [simp]:
  "numeral n < (2::int) ^ 53 \<Longrightarrow> is_double (- numeral n)"
  using is_double_of_int [of "- numeral n"] by simp

lemma is_double_1 [simp]: "is_double 1"
  using is_double_of_int [of 1] by simp

lemma is_double_neg_1 [simp]: "is_double (- 1)"
  using is_double_of_int [of "- 1"] by simp

lemma tier_simps [simp]:
  "tier NaN = 1" "tier NegInf = 0" "tier NegZero = 1" "tier (Fin d) = 1" "tier PosInf = 2"
  by (simp_all add: tier_def)

lemma val_simps [simp]:
  "val NaN = 0" "val NegInf = 0" "val NegZero = 0" "val (Fin d) = Rep_double d" "val PosInf = 0"
  by (simp_all add: val_def)

lemma js_finite_simps [simp]:
  "\<not> js_finite NaN" "\<not> js_finite NegInf" "js_finite NegZero" "js_finite (Fin d)"
  "\<not> js_finite PosInf"
  by (simp_all add: js_finite_def)

lemma is_zero_simps [simp]:
  "\<not> is_zero NaN" "\<not> is_zero NegInf" "is_zero NegZero" "is_zero (Fin d) = (Rep_double d = 0)"
  "\<not> is_zero PosInf"
  by (simp_all add: is_zero_def)

lemma is_neg_simps [simp]:
  "\<not> is_neg NaN" "is_neg NegInf" "is_neg NegZero" "is_neg (Fin d) = (Rep_double d < 0)"
  "\<not> is_neg PosInf"
  by (simp_all add: is_neg_def)

lemma is_inf_simps [simp]:
  "\<not> is_inf NaN" "is_inf NegInf" "\<not> is_inf NegZero" "\<not> is_inf (Fin d)" "is_inf PosInf"
  by (simp_all add: is_inf_def)

lemma num_0: "num 0 = Fin (Abs_double 0)"
  by (simp add: num_def round64_double)

lemma js_lt_imp_le: "js_lt a b \<Longrightarrow> js_le a b"
  by (auto simp: js_lt_def js_le_def)


lemma js_le_not_lt: "js_le a b \<Longrightarrow> \<not> js_lt b a"
  by (auto simp: js_lt_def js_le_def)

lemma js_le_trans: "js_le a b \<Longrightarrow> js_le b c \<Longrightarrow> js_le a c"
  by (auto simp: js_le_def)

lemma js_le_lt_trans: "js_le a b \<Longrightarrow> js_lt b c \<Longrightarrow> js_lt a c"
  by (auto simp: js_lt_def js_le_def)

lemma js_le_refl: "a \<noteq> NaN \<Longrightarrow> js_le a a"
  by (simp add: js_le_def)

lemma js_le_not_NaN: "js_le a b \<Longrightarrow> a \<noteq> NaN \<and> b \<noteq> NaN"
  by (simp add: js_le_def)

lemma js_lt_irrefl [simp]: "\<not> js_lt a a"
  by (simp add: js_lt_def)

lemma round64_not_NaN [simp]: "round64 x \<noteq> NaN"
  by (simp add: round64_def Let_def)

lemma round64_cases:
  "round64 x = PosInf \<and> 2 ^ 1024 \<le> round_fin x
   \<or> round64 x = NegInf \<and> round_fin x \<le> - (2 ^ 1024)
   \<or> round64 x = NegZero \<and> round_fin x = 0
   \<or> (\<exists>d. round64 x = Fin d \<and> Rep_double d = round_fin x)"
proof -
  have "is_double (round_fin x)"
    if "\<not> 2 ^ 1024 \<le> round_fin x" "\<not> round_fin x \<le> - (2 ^ 1024)"
    using that by (intro is_double_round_fin) simp
  then show ?thesis by (auto simp: round64_def Let_def)
qed

text \<open>Rounding is monotone and leaves doubles fixed, so it keeps a bound that is a double.\<close>

lemma round64_le_Fin:
  assumes "x \<le> Rep_double d"
  shows "js_le (round64 x) (Fin d)"
proof -
  have v: "\<bar>Rep_double d\<bar> < 2 ^ 1024" "round_fin (Rep_double d) = Rep_double d"
    using Rep_double_is_double [of d] by (simp_all add: is_double_def)
  from round_fin_mono [OF assms] v have "round_fin x \<le> Rep_double d" by simp
  with v(1) show ?thesis
    using round64_cases [of x] by (auto simp: js_le_def)
qed

lemma round64_ge_Fin:
  assumes "Rep_double d \<le> x"
  shows "js_le (Fin d) (round64 x)"
proof -
  have v: "\<bar>Rep_double d\<bar> < 2 ^ 1024" "round_fin (Rep_double d) = Rep_double d"
    using Rep_double_is_double [of d] by (simp_all add: is_double_def)
  from round_fin_mono [OF assms] v have "Rep_double d \<le> round_fin x" by simp
  with v(1) show ?thesis
    using round64_cases [of x] by (auto simp: js_le_def)
qed

lemma round64_le_0:
  assumes "x \<le> 0"
  shows "js_le (round64 x) NegZero" and "js_le (round64 x) (num 0)"
proof -
  from round_fin_nonpos [OF assms] show "js_le (round64 x) NegZero"
    using round64_cases [of x] by (auto simp: js_le_def)
  then show "js_le (round64 x) (num 0)"
    by (simp add: js_le_def num_0)
qed

lemma round64_ge_0:
  assumes "0 \<le> x"
  shows "js_le NegZero (round64 x)" and "js_le (num 0) (round64 x)"
proof -
  from round_fin_nonneg [OF assms] show "js_le NegZero (round64 x)"
    using round64_cases [of x] by (auto simp: js_le_def)
  then show "js_le (num 0) (round64 x)"
    by (simp add: js_le_def num_0)
qed

lemma js_le_num_0:
  "js_le a (num 0) \<longleftrightarrow> a = NegInf \<or> a = NegZero \<or> (\<exists>d. a = Fin d \<and> Rep_double d \<le> 0)"
  by (cases a) (simp_all add: js_le_def num_0)

lemma js_ge_num_0:
  "js_le (num 0) a \<longleftrightarrow> a = PosInf \<or> a = NegZero \<or> (\<exists>d. a = Fin d \<and> 0 \<le> Rep_double d)"
  by (cases a) (simp_all add: js_le_def num_0)

lemma js_lt_num_0:
  "js_lt a (num 0) \<longleftrightarrow> a = NegInf \<or> (\<exists>d. a = Fin d \<and> Rep_double d < 0)"
  by (cases a) (simp_all add: js_lt_def num_0)

lemma js_gt_num_0:
  "js_lt (num 0) a \<longleftrightarrow> a = PosInf \<or> (\<exists>d. a = Fin d \<and> 0 < Rep_double d)"
  by (cases a) (simp_all add: js_lt_def num_0)

text \<open>Adding an amount that is not positive does not raise a total.\<close>

lemma js_add_nonpos:
  assumes "js_le a (num 0)" and "t \<noteq> NaN" and "\<not> (t = PosInf \<and> a = NegInf)"
  shows "js_le (js_add t a) t"
proof -
  from assms(1) consider "a = NegInf" | "a = NegZero" | d where "a = Fin d" "Rep_double d \<le> 0"
    by (auto simp: js_le_num_0)
  then show ?thesis
  proof cases
    case 1
    with assms(2,3) show ?thesis by (cases t) (simp_all add: js_add_def js_le_def)
  next
    case 2
    show ?thesis
    proof (cases t)
      case (Fin e)
      have "js_le (round64 (Rep_double e)) (Fin e)" by (rule round64_le_Fin) simp
      with 2 Fin show ?thesis by (simp add: js_add_def js_le_def num_0)
    qed (use 2 assms(2) in \<open>simp_all add: js_add_def js_le_def\<close>)
  next
    case 3
    show ?thesis
    proof (cases t)
      case NegZero
      have "js_le (round64 (Rep_double d)) NegZero" by (rule round64_le_0(1)) fact
      with 3 NegZero show ?thesis by (simp add: js_add_def js_le_def num_0)
    next
      case (Fin e)
      have "js_le (round64 (Rep_double e + Rep_double d)) (Fin e)"
        by (rule round64_le_Fin) (use 3 in simp)
      with 3 Fin show ?thesis by (simp add: js_add_def js_le_def num_0)
    qed (use 3 assms(2) in \<open>simp_all add: js_add_def js_le_def\<close>)
  qed
qed

text \<open>Adding an amount that is not negative does not lower a total.\<close>

lemma js_add_nonneg:
  assumes "js_le (num 0) a" and "t \<noteq> NaN" and "\<not> (t = NegInf \<and> a = PosInf)"
  shows "js_le t (js_add t a)"
proof -
  from assms(1) consider "a = PosInf" | "a = NegZero" | d where "a = Fin d" "0 \<le> Rep_double d"
    by (auto simp: js_ge_num_0)
  then show ?thesis
  proof cases
    case 1
    with assms(2,3) show ?thesis by (cases t) (simp_all add: js_add_def js_le_def)
  next
    case 2
    show ?thesis
    proof (cases t)
      case (Fin e)
      have "js_le (Fin e) (round64 (Rep_double e))" by (rule round64_ge_Fin) simp
      with 2 Fin show ?thesis by (simp add: js_add_def js_le_def num_0)
    qed (use 2 assms(2) in \<open>simp_all add: js_add_def js_le_def\<close>)
  next
    case 3
    show ?thesis
    proof (cases t)
      case NegZero
      have "js_le NegZero (round64 (Rep_double d))" by (rule round64_ge_0(1)) fact
      with 3 NegZero show ?thesis by (simp add: js_add_def js_le_def num_0)
    next
      case (Fin e)
      have "js_le (Fin e) (round64 (Rep_double e + Rep_double d))"
        by (rule round64_ge_Fin) (use 3 in simp)
      with 3 Fin show ?thesis by (simp add: js_add_def js_le_def num_0)
    qed (use 3 assms(2) in \<open>simp_all add: js_add_def js_le_def\<close>)
  qed
qed

lemma js_add_NaN_left [simp]: "js_add NaN a = NaN"
  by (simp add: js_add_def)

text \<open>A product of a number that is not positive and a positive finite one is not positive.\<close>

lemma js_mul_nonpos:
  assumes "js_le a (num 0)" and "js_lt (num 0) b" and "js_finite b"
  shows "js_le (js_mul a b) (num 0)"
proof -
  from assms(2,3) obtain e where b: "b = Fin e" "0 < Rep_double e"
    by (auto simp: js_gt_num_0)
  from assms(1) consider "a = NegInf" | "a = NegZero" | d where "a = Fin d" "Rep_double d \<le> 0"
    by (auto simp: js_le_num_0)
  then show ?thesis
  proof cases
    case 1
    with b show ?thesis by (simp add: js_mul_def js_le_def num_0)
  next
    case 2
    with b show ?thesis by (simp add: js_mul_def js_le_def num_0)
  next
    case 3
    with b have "Rep_double d * Rep_double e \<le> 0" by (simp add: mult_nonpos_nonneg)
    then have "js_le (round64 (Rep_double d * Rep_double e)) (num 0)" by (rule round64_le_0(2))
    with 3 b show ?thesis by (auto simp: js_mul_def js_le_def num_0)
  qed
qed

lemma num_double: "is_double x \<Longrightarrow> num x = Fin (Abs_double x)"
  by (simp add: num_def round64_double)

lemmas storage_defs = storage_get_def storage_insert_def storage_remove_def

lemmas js_eval = num_double round64_double js_add_def js_mul_def js_lt_def js_le_def js_gt_def
  js_ge_def js_falsy_def

subsection \<open>The operations\<close>

lemma generateId_sample: "generateId (str ''0.1234567'') = id12345"
  by (simp add: generateId_def substring_def str_def id12345_def)

lemma trim_nonempty: "trim t \<noteq> [] \<Longrightarrow> t \<noteq> []"
  by (auto simp: trim_def)

lemma trim_samples:
  "trim (str ''Well'') \<noteq> []" "trim (str ''A well'') \<noteq> []"
  "trim (str ''School'') \<noteq> []" "trim (str ''A school'') \<noteq> []"
  by (simp_all add: trim_def is_space_def str_def)

lemma goal_guard: "js_gt g (num 0) \<longleftrightarrow> \<not> (js_falsy g \<or> js_le g (num 0))"
  by (cases g) (auto simp: js_gt_def js_lt_def js_le_def js_falsy_def num_0)

lemma createCampaign_valid:
  assumes "\<not> proposer_rejected v p"
    and "trim t \<noteq> []" and "trim d \<noteq> []" and "js_gt g (num 0)"
  shows "createCampaign v now rnd p t d g dl s =
           (Inr \<lparr> id_campaign = generateId rnd, proposer = p, title = t, description = d,
                  goal = g, totalDonations = num 0,
                  deadline = js_add now (js_mul (js_mul dl (num 86400)) (num 1000000000)),
                  donors = [] \<rparr>,
            s(generateId rnd \<mapsto>
                \<lparr> id_campaign = generateId rnd, proposer = p, title = t, description = d,
                  goal = g, totalDonations = num 0,
                  deadline = js_add now (js_mul (js_mul dl (num 86400)) (num 1000000000)),
                  donors = [] \<rparr>))"
proof -
  have "t \<noteq> []" "d \<noteq> []"
    using assms(2,3) by (auto dest: trim_nonempty)
  moreover have "\<not> (js_falsy g \<or> js_le g (num 0))"
    using assms(4) goal_guard by blast
  ultimately show ?thesis
    using assms(1,2,3) by (simp add: createCampaign_def storage_defs Let_def)
qed

lemma createCampaign_Inr:
  assumes "createCampaign v now rnd p t d g dl s = (Inr c, s')"
  shows "c = \<lparr> id_campaign = generateId rnd, proposer = p, title = t, description = d,
               goal = g, totalDonations = num 0,
               deadline = js_add now (js_mul (js_mul dl (num 86400)) (num 1000000000)),
               donors = [] \<rparr>"
    and "s' = s(generateId rnd \<mapsto> c)" and "js_gt g (num 0)"
  using assms
  by (auto simp: createCampaign_def storage_defs Let_def goal_guard split: if_splits)

lemma createCampaign_Inl:
  assumes "createCampaign v now rnd p t d g dl s = (Inl e, s')"
  shows "s' = s"
  using assms by (auto simp: createCampaign_def Let_def split: if_splits)

lemma donateCampaign_cases:
  "donateCampaign now i d a s =
     (case s i of
        None \<Rightarrow> (Inl (NotFound i), s)
      | Some c \<Rightarrow>
          if js_gt now (deadline c) then (Inl CampaignEnded, s)
          else if js_ge (goal c) (js_add (totalDonations c) a)
          then (Inr (c\<lparr> donors := donors c @ [\<lparr> id_donor = d, amount = a \<rparr>],
                        totalDonations := js_add (totalDonations c) a \<rparr>),
                s(i \<mapsto> c\<lparr> donors := donors c @ [\<lparr> id_donor = d, amount = a \<rparr>],
                           totalDonations := js_add (totalDonations c) a \<rparr>))
          else (Inl GoalExceeded, s))"
  by (simp add: donateCampaign_def storage_defs Let_def split: option.splits)

subsection \<open>The claims\<close>

text \<open>
  C9. A successful \<open>deleteCampaign\<close> of an identifier leaves no record under it: the
  storage has no entry there, and \<open>getCampaign\<close> on the same identifier answers
  \<open>NotFound\<close>, as do the deadline query, an update, a donation and a second deletion.
  This holds in all three files; in index.ts a deletion that succeeded has passed the
  format guard, so the queries pass it too.
\<close>

theorem delete_then_get_NotFound:
  assumes "deleteCampaign v i s = (Inr c, s')"
  shows "getCampaign v i s' = Inl (NotFound i)
       \<and> getDeadlineByCampaignId v i s' = Inl (NotFound i)
       \<and> updateOnlyTitleandDescription i t d s' = (Inl (NotFound i), s')
       \<and> donateCampaign now i p a s' = (Inl (NotFound i), s')
       \<and> deleteCampaign v i s' = (Inl (NotFound i), s')
       \<and> s' i = None \<and> s i = Some c"
  using assms
  by (auto simp: deleteCampaign_def getCampaign_def getDeadlineByCampaignId_def
                 updateOnlyTitleandDescription_def donateCampaign_def storage_defs
           split: if_splits option.splits)

theorem delete_then_get_NotFound_witness:
  "deleteCampaign Index_ts id12345 store60 = (Inr camp60, Map.empty)
   \<and> getCampaign Index_ts id12345 Map.empty = Inl (NotFound id12345)"
proof -
  have h: "deleteCampaign Index_ts id12345 store60 = (Inr camp60, Map.empty)"
    by (simp add: deleteCampaign_def id_rejected_def id_format_ok_def hex_or_digit_def
                  storage_defs store60_def id12345_def str_def)
  from delete_then_get_NotFound [OF h] show ?thesis using h by simp
qed



text \<open>
  C6. For a stored campaign \<open>donateCampaign\<close> fails with \<open>CampaignEnded\<close> exactly when
  the clock reading is greater than the deadline. On that failure the storage, and with
  it the donors and the total of the record, is what it was. A call at exactly the
  deadline is not rejected as \<open>CampaignEnded\<close>.
\<close>

theorem donate_CampaignEnded_iff:
  assumes "s i = Some c"
  shows "(fst (donateCampaign now i d a s) = Inl CampaignEnded \<longleftrightarrow> js_gt now (deadline c))
       \<and> (js_gt now (deadline c) \<longrightarrow> snd (donateCampaign now i d a s) = s)
       \<and> (now = deadline c \<longrightarrow> fst (donateCampaign now i d a s) \<noteq> Inl CampaignEnded)"
  using assms by (simp add: donateCampaign_cases js_gt_def)

theorem donate_CampaignEnded_iff_witness:
  "store60 id12345 = Some camp60
   \<and> donateCampaign (num 5001) id12345 alice (num 10) store60 = (Inl CampaignEnded, store60)
   \<and> fst (donateCampaign (num 5000) id12345 alice (num 10) store60) \<noteq> Inl CampaignEnded"
proof -
  have h: "store60 id12345 = Some camp60" by (simp add: store60_def)
  have t1: "js_gt (num 5001) (deadline camp60)" by (simp add: camp60_def js_eval)
  have t2: "num 5000 = deadline camp60" by (simp add: camp60_def)
  from donate_CampaignEnded_iff
         [where s = store60 and i = id12345 and now = "num 5001" and d = alice
            and a = "num 10", OF h] t1
  have a: "donateCampaign (num 5001) id12345 alice (num 10) store60
             = (Inl CampaignEnded, store60)"
    by (simp add: prod_eq_iff)
  from donate_CampaignEnded_iff
         [where s = store60 and i = id12345 and now = "num 5000" and d = alice
            and a = "num 10", OF h] t2
  have b: "fst (donateCampaign (num 5000) id12345 alice (num 10) store60) \<noteq> Inl CampaignEnded"
    by blast
  from h a b show ?thesis by simp
qed

text \<open>
  C7. For a stored campaign \<open>updateOnlyTitleandDescription\<close> succeeds, stores under the
  same identifier the record with the new title and description, and leaves \<open>goal\<close>,
  \<open>deadline\<close>, \<open>donors\<close>, \<open>totalDonations\<close>, \<open>proposer\<close> and the identifier as they
  were. Records under other identifiers are not touched.
\<close>

theorem update_changes_only_title_description:
  assumes "s i = Some c" and "updateOnlyTitleandDescription i t d s = (r, s')"
  shows "\<exists>c'. r = Inr c' \<and> s' i = Some c'
          \<and> title c' = t \<and> description c' = d
          \<and> goal c' = goal c \<and> deadline c' = deadline c \<and> donors c' = donors c
          \<and> totalDonations c' = totalDonations c \<and> proposer c' = proposer c
          \<and> id_campaign c' = id_campaign c
          \<and> c' = c\<lparr> title := t, description := d \<rparr>
          \<and> (\<forall>j. j \<noteq> i \<longrightarrow> s' j = s j)"
  using assms by (auto simp: updateOnlyTitleandDescription_def storage_defs Let_def)

theorem update_changes_only_title_description_witness:
  "store60 id12345 = Some camp60
   \<and> (\<exists>c'. snd (updateOnlyTitleandDescription id12345 (str ''Pump'') (str ''A pump'') store60)
              id12345 = Some c'
          \<and> title c' = str ''Pump'' \<and> goal c' = num 100 \<and> totalDonations c' = num 60
          \<and> deadline c' = num 5000)"
proof -
  have h: "store60 id12345 = Some camp60" by (simp add: store60_def)
  obtain r s' where
    e: "updateOnlyTitleandDescription id12345 (str ''Pump'') (str ''A pump'') store60 = (r, s')"
    by (cases "updateOnlyTitleandDescription id12345 (str ''Pump'') (str ''A pump'') store60")
  from update_changes_only_title_description
         [where s = store60 and i = id12345, OF h e] obtain c' where
    "s' id12345 = Some c'" "title c' = str ''Pump''" "goal c' = goal camp60"
    "totalDonations c' = totalDonations camp60" "deadline c' = deadline camp60"
    by blast
  then show ?thesis using h e by (simp add: camp60_def)
qed

lemma create_school:
  "createCampaign Part_000 (num 1000) (str ''0.1234567'') alice (str ''School'')
      (str ''A school'') (num 50) (num 2) s
     = (Inr camp_school, s(id12345 \<mapsto> camp_school))"
proof -
  have g: "js_gt (num 50) (num 0)" by (simp add: js_eval)
  have p: "\<not> proposer_rejected Part_000 alice" by (simp add: proposer_rejected_def alice_def)
  have dl: "js_add (num 1000) (js_mul (js_mul (num 2) (num 86400)) (num 1000000000))
              = num 172800000001000"
    by (simp add: js_eval)
  show ?thesis
    by (simp add: createCampaign_valid [OF p trim_samples(3,4) g] generateId_sample dl
                  camp_school_def)
qed

lemma create_fresh:
  "createCampaign Part_000 (num 1000) (str ''0.1234567'') alice (str ''Well'')
      (str ''A well'') (num 100) (num 1) s
     = (Inr camp_fresh, s(id12345 \<mapsto> camp_fresh))"
proof -
  have g: "js_gt (num 100) (num 0)" by (simp add: js_eval)
  have p: "\<not> proposer_rejected Part_000 alice" by (simp add: proposer_rejected_def alice_def)
  have dl: "js_add (num 1000) (js_mul (js_mul (num 1) (num 86400)) (num 1000000000))
              = num 86400000001000"
    by (simp add: js_eval)
  show ?thesis
    by (simp add: createCampaign_valid [OF p trim_samples(1,2) g] generateId_sample dl
                  camp_fresh_def)
qed

text \<open>
  C8. \<open>createCampaign\<close> takes its identifier from the generator as it comes and does
  not look it up in the map. A successful call stores the new record under
  \<open>generateId rnd\<close> and leaves every record under another identifier alone. When the
  generated identifier is free, no stored record changes; when it is taken, the record
  stored under it is replaced by the new one.
\<close>

theorem createCampaign_identifier:
  assumes "createCampaign v now rnd p t d g dl s = (Inr c, s')"
  shows "id_campaign c = generateId rnd
       \<and> s' (generateId rnd) = Some c
       \<and> (\<forall>j. j \<noteq> generateId rnd \<longrightarrow> s' j = s j)
       \<and> (s (generateId rnd) = None \<longrightarrow> (\<forall>j c0. s j = Some c0 \<longrightarrow> s' j = Some c0))"
  using createCampaign_Inr [OF assms] by auto

theorem createCampaign_identifier_witness:
  "createCampaign Part_000 (num 1000) (str ''0.1234567'') alice (str ''School'')
      (str ''A school'') (num 50) (num 2) Map.empty
     = (Inr camp_school, Map.empty(id12345 \<mapsto> camp_school))
   \<and> id_campaign camp_school = generateId (str ''0.1234567'')"
proof -
  have h: "createCampaign Part_000 (num 1000) (str ''0.1234567'') alice (str ''School'')
             (str ''A school'') (num 50) (num 2) Map.empty
             = (Inr camp_school, Map.empty(id12345 \<mapsto> camp_school))"
    by (rule create_school)
  from createCampaign_identifier [OF h] show ?thesis using h by simp
qed

text \<open>
  C8, as stated, fails: when the generator returns an identifier that is already in
  the map, the call succeeds and the record that was stored under it is overwritten.
\<close>

theorem createCampaign_overwrites_counterexample:
  "store60 id12345 = Some camp60
   \<and> createCampaign Part_000 (num 1000) (str ''0.1234567'') alice (str ''School'')
        (str ''A school'') (num 50) (num 2) store60
       = (Inr camp_school, store60(id12345 \<mapsto> camp_school))
   \<and> id_campaign camp_school = id12345
   \<and> (store60(id12345 \<mapsto> camp_school)) id12345 \<noteq> Some camp60"
proof -
  have "title camp_school \<noteq> title camp60"
    by (simp add: camp_school_def camp60_def str_def)
  then have "camp_school \<noteq> camp60" by auto
  then show ?thesis
    by (simp add: create_school store60_def) (simp add: camp_school_def)
qed

text \<open>
  C2. \<open>donateCampaign\<close> has no check of the amount. A donation with \<open>amount \<le> 0\<close> to
  a stored campaign that has not passed its deadline and whose total does not exceed its
  goal is accepted: the donor is appended and the amount is added to the total. (The one
  exception is the amount \<^verbatim>\<open>-Infinity\<close> on a total of \<^verbatim>\<open>Infinity\<close>, whose sum is
  \<^verbatim>\<open>NaN\<close>.) Every failing call fails with \<open>NotFound\<close>, \<open>CampaignEnded\<close> or
  \<open>GoalExceeded\<close> and returns the storage unchanged.
\<close>

theorem donate_no_amount_check:
  "(s i = Some c \<longrightarrow> js_le a (num 0) \<longrightarrow> js_le now (deadline c) \<longrightarrow>
      js_le (totalDonations c) (goal c) \<longrightarrow> \<not> (totalDonations c = PosInf \<and> a = NegInf) \<longrightarrow>
      donateCampaign now i d a s =
        (Inr (c\<lparr> donors := donors c @ [\<lparr> id_donor = d, amount = a \<rparr>],
                 totalDonations := js_add (totalDonations c) a \<rparr>),
         s(i \<mapsto> c\<lparr> donors := donors c @ [\<lparr> id_donor = d, amount = a \<rparr>],
                    totalDonations := js_add (totalDonations c) a \<rparr>)))
   \<and> (\<forall>e. fst (donateCampaign now i d a s) = Inl e \<longrightarrow>
          snd (donateCampaign now i d a s) = s
          \<and> (e = NotFound i \<or> e = CampaignEnded \<or> e = GoalExceeded))"
proof (intro conjI impI allI)
  assume c: "s i = Some c" and a: "js_le a (num 0)" and n: "js_le now (deadline c)"
    and g: "js_le (totalDonations c) (goal c)"
    and x: "\<not> (totalDonations c = PosInf \<and> a = NegInf)"
  from g have "totalDonations c \<noteq> NaN" by (simp add: js_le_def)
  from js_add_nonpos [OF a this x] g
  have "js_ge (goal c) (js_add (totalDonations c) a)"
    unfolding js_ge_def by (rule js_le_trans)
  moreover from n have "\<not> js_gt now (deadline c)" by (simp add: js_gt_def js_le_not_lt)
  ultimately show "donateCampaign now i d a s =
        (Inr (c\<lparr> donors := donors c @ [\<lparr> id_donor = d, amount = a \<rparr>],
                 totalDonations := js_add (totalDonations c) a \<rparr>),
         s(i \<mapsto> c\<lparr> donors := donors c @ [\<lparr> id_donor = d, amount = a \<rparr>],
                    totalDonations := js_add (totalDonations c) a \<rparr>))"
    using c by (simp add: donateCampaign_cases)
next
  fix e
  assume "fst (donateCampaign now i d a s) = Inl e"
  then show "snd (donateCampaign now i d a s) = s"
    and "e = NotFound i \<or> e = CampaignEnded \<or> e = GoalExceeded"
    by (auto simp: donateCampaign_cases split: option.splits if_splits)
qed

theorem donate_no_amount_check_witness:
  "store60 id12345 = Some camp60 \<and> js_le (num (- 10)) (num 0)
   \<and> js_le (num 1000) (deadline camp60)
   \<and> js_le (totalDonations camp60) (goal camp60)
   \<and> donateCampaign (num 1000) id12345 alice (num (- 10)) store60
       = (Inr camp50, store60(id12345 \<mapsto> camp50))
   \<and> fst (donateCampaign (num 1000) id12345 alice (num 50) store60) = Inl GoalExceeded
   \<and> snd (donateCampaign (num 1000) id12345 alice (num 50) store60) = store60"
proof -
  have h1: "store60 id12345 = Some camp60" by (simp add: store60_def)
  have h2: "js_le (num (- 10)) (num 0)" by (simp add: js_eval)
  have h3: "js_le (num 1000) (deadline camp60)" by (simp add: camp60_def js_eval)
  have h4: "js_le (totalDonations camp60) (goal camp60)" by (simp add: camp60_def js_eval)
  have h5: "\<not> (totalDonations camp60 = PosInf \<and> num (- 10) = NegInf)"
    by (simp add: js_eval)
  have c: "camp60\<lparr> donors := donors camp60 @ [\<lparr> id_donor = alice, amount = num (- 10) \<rparr>],
                   totalDonations := js_add (totalDonations camp60) (num (- 10)) \<rparr> = camp50"
    by (simp add: camp60_def camp50_def js_eval)
  have f: "fst (donateCampaign (num 1000) id12345 alice (num 50) store60) = Inl GoalExceeded"
    by (simp add: donateCampaign_cases store60_def camp60_def js_eval)
  from donate_no_amount_check
         [where s = store60 and i = id12345 and c = camp60 and a = "num (- 10)"
            and now = "num 1000" and d = alice]
       h1 h2 h3 h4 h5
  have "donateCampaign (num 1000) id12345 alice (num (- 10)) store60 =
        (Inr (camp60\<lparr> donors := donors camp60 @ [\<lparr> id_donor = alice, amount = num (- 10) \<rparr>],
                      totalDonations := js_add (totalDonations camp60) (num (- 10)) \<rparr>),
         store60(id12345 \<mapsto>
           camp60\<lparr> donors := donors camp60 @ [\<lparr> id_donor = alice, amount = num (- 10) \<rparr>],
                   totalDonations := js_add (totalDonations camp60) (num (- 10)) \<rparr>))"
    by blast
  then have a: "donateCampaign (num 1000) id12345 alice (num (- 10)) store60
             = (Inr camp50, store60(id12345 \<mapsto> camp50))"
    by (simp only: c)
  from donate_no_amount_check
         [where s = store60 and i = id12345 and a = "num 50" and now = "num 1000"
            and d = alice] f
  have b: "snd (donateCampaign (num 1000) id12345 alice (num 50) store60) = store60"
    by blast
  from h1 h2 h3 h4 a f b show ?thesis by simp
qed

text \<open>
  C2, as stated, fails: a donation of \<open>- 10\<close> to a stored, open campaign does not fail.
  It is accepted, a donor entry with the negative amount is stored and the total goes
  down from 60 to 50.
\<close>

theorem donate_nonpositive_accepted_counterexample:
  "store60 id12345 = Some camp60 \<and> js_le (num (- 10)) (num 0)
   \<and> fst (donateCampaign (num 1000) id12345 alice (num (- 10)) store60) = Inr camp50
   \<and> snd (donateCampaign (num 1000) id12345 alice (num (- 10)) store60) id12345 = Some camp50
   \<and> totalDonations camp60 = num 60 \<and> totalDonations camp50 = num 50
   \<and> js_lt (totalDonations camp50) (totalDonations camp60)
   \<and> donors camp50 = donors camp60 @ [\<lparr> id_donor = alice, amount = num (- 10) \<rparr>]"
  by (simp add: donateCampaign_cases store60_def camp60_def camp50_def js_eval)

lemma donate_NaN_sum:
  assumes "s i = Some c" and "totalDonations c = PosInf" and "\<not> js_gt now (deadline c)"
  shows "donateCampaign now i d NegInf s = (Inl GoalExceeded, s)"
  using assms by (simp add: donateCampaign_cases js_add_def js_ge_def js_le_def)

lemma running_sum_NaN [simp]: "running_sum NaN xs = NaN"
  by (induction xs) (simp_all add: running_sum_def)

lemma running_sum_Cons [simp]: "running_sum t (x # xs) = running_sum (js_add t x) xs"
  by (simp add: running_sum_def)

lemma running_sum_Nil [simp]: "running_sum t [] = t"
  by (simp add: running_sum_def)

lemma js_add_nonneg_accepted:
  assumes "js_le (num 0) a" and "js_add t a \<noteq> NaN"
  shows "js_le t (js_add t a)"
proof -
  from assms(2) have "t \<noteq> NaN" "\<not> (t = NegInf \<and> a = PosInf)"
    by (auto simp: js_add_def)
  with assms(1) show ?thesis by (intro js_add_nonneg)
qed

lemma running_sum_ge:
  assumes "\<forall>y \<in> set ys. js_le (num 0) y" and "running_sum u ys \<noteq> NaN"
  shows "js_le u (running_sum u ys)"
  using assms
proof (induction ys arbitrary: u)
  case Nil
  then show ?case by (simp add: js_le_refl)
next
  case (Cons y ys)
  from Cons.prems(2) have n: "js_add u y \<noteq> NaN" by (cases "js_add u y = NaN") simp_all
  from Cons.prems(1) have "js_le (num 0) y" by simp
  then have "js_le u (js_add u y)" using n by (rule js_add_nonneg_accepted)
  moreover from Cons.IH [of "js_add u y"] Cons.prems
  have "js_le (js_add u y) (running_sum (js_add u y) ys)" by simp
  ultimately show ?case by (simp add: js_le_trans)
qed


text \<open>
  Donations that are not negative, each made by the deadline, whose running sum on top
  of the stored total does not exceed the goal, are all accepted.
\<close>

lemma donate_seq_all_accepted:
  assumes "s i = Some c"
    and "\<forall>(now, d, a) \<in> set ds. js_le now (deadline c) \<and> js_le (num 0) a"
    and "js_le (running_sum (totalDonations c) (amounts ds)) (goal c)"
  shows "list_all accepted (fst (donate_seq i ds s))"
  using assms
proof (induction ds arbitrary: s c)
  case Nil
  then show ?case by simp
next
  case (Cons x rest)
  obtain now d a where x: "x = (now, d, a)" by (cases x)
  let ?c1 = "c\<lparr> donors := donors c @ [\<lparr> id_donor = d, amount = a \<rparr>],
                totalDonations := js_add (totalDonations c) a \<rparr>"
  from Cons.prems(2) x have now: "js_le now (deadline c)" and a: "js_le (num 0) a"
    and later: "\<forall>(now, d, a) \<in> set rest. js_le now (deadline ?c1) \<and> js_le (num 0) a"
    by auto
  from later have nn: "\<forall>y \<in> set (amounts rest). js_le (num 0) y"
    by (auto simp: amounts_def)
  from Cons.prems(3) x
  have room: "js_le (running_sum (totalDonations ?c1) (amounts rest)) (goal ?c1)"
    by (simp add: amounts_def)
  then have "running_sum (js_add (totalDonations c) a) (amounts rest) \<noteq> NaN"
    by (simp add: js_le_def)
  from running_sum_ge [OF nn this] room
  have fits: "js_ge (goal c) (js_add (totalDonations c) a)"
    unfolding js_ge_def by (auto intro: js_le_trans)
  from now have "\<not> js_gt now (deadline c)" by (simp add: js_gt_def js_le_not_lt)
  with Cons.prems(1) fits
  have step: "donateCampaign now i d a s = (Inr ?c1, s(i \<mapsto> ?c1))"
    by (simp add: donateCampaign_cases)
  have "(s(i \<mapsto> ?c1)) i = Some ?c1" by simp
  from Cons.IH [where s = "s(i \<mapsto> ?c1)" and c = ?c1, OF this later room]
  have tail: "list_all accepted (fst (donate_seq i rest (s(i \<mapsto> ?c1))))" .
  obtain rs1 s2 where rest: "donate_seq i rest (s(i \<mapsto> ?c1)) = (rs1, s2)"
    by (cases "donate_seq i rest (s(i \<mapsto> ?c1))")
  have head: "accepted (Inr ?c1)" by (simp add: accepted_def)
  from step rest x have "donate_seq i (x # rest) s = (Inr ?c1 # rs1, s2)"
    by simp
  with tail rest head show ?case by simp
qed



lemma exec_cases:
  "exec v now rnd k s = s
   \<or> (\<exists>p t d g dl c. k = CreateCampaign p t d g dl \<and> js_gt g (num 0)
         \<and> totalDonations c = num 0 \<and> goal c = g
         \<and> exec v now rnd k s = s(generateId rnd \<mapsto> c))
   \<or> (\<exists>i t d c. k = UpdateOnlyTitleandDescription i t d \<and> s i = Some c
         \<and> exec v now rnd k s = s(i \<mapsto> c\<lparr> title := t, description := d \<rparr>))
   \<or> (\<exists>i p a c. k = DonateCampaign i p a \<and> s i = Some c
         \<and> js_le (js_add (totalDonations c) a) (goal c)
         \<and> exec v now rnd k s =
             s(i \<mapsto> c\<lparr> donors := donors c @ [\<lparr> id_donor = p, amount = a \<rparr>],
                        totalDonations := js_add (totalDonations c) a \<rparr>))
   \<or> (\<exists>i. k = DeleteCampaign i \<and> exec v now rnd k s = s(i := None))"
proof (cases k)
  case (CreateCampaign p t d g dl)
  obtain r s' where r: "createCampaign v now rnd p t d g dl s = (r, s')"
    by (cases "createCampaign v now rnd p t d g dl s")
  show ?thesis
  proof (cases r)
    case (Inl e)
    with r have "s' = s" by (auto dest: createCampaign_Inl)
    with r CreateCampaign show ?thesis by simp
  next
    case (Inr c)
    from createCampaign_Inr [OF r [unfolded Inr]]
    have "totalDonations c = num 0" "goal c = g" "s' = s(generateId rnd \<mapsto> c)"
      "js_gt g (num 0)"
      by simp_all
    with r CreateCampaign show ?thesis by auto
  qed
next
  case (UpdateOnlyTitleandDescription i t d)
  then show ?thesis
    by (auto simp: updateOnlyTitleandDescription_def storage_defs Let_def
             split: option.splits)
next
  case (DonateCampaign i p a)
  then show ?thesis
    by (auto simp: donateCampaign_cases js_ge_def split: option.splits)
next
  case (DeleteCampaign i)
  then show ?thesis
    by (auto simp: deleteCampaign_def storage_defs split: option.splits)
qed simp_all

lemma exec_within_goal:
  assumes "\<forall>i c. s i = Some c \<longrightarrow> js_le (totalDonations c) (goal c)"
    and "exec v now rnd k s j = Some c'"
  shows "js_le (totalDonations c') (goal c')"
  using exec_cases [of v now rnd k s] assms
  by (auto simp: js_gt_def js_lt_imp_le split: if_splits)

lemma exec_nonneg:
  assumes "\<forall>i c. s i = Some c \<longrightarrow> js_le (num 0) (totalDonations c)"
    and "amount_nonneg k" and "exec v now rnd k s j = Some c'"
  shows "js_le (num 0) (totalDonations c')"
proof -
  have add: "js_le (num 0) (js_add t a)" if "js_le (num 0) t" "js_le (num 0) a" for t a
  proof -
    from that(1) have "t \<noteq> NaN" "\<not> (t = NegInf \<and> a = PosInf)"
      by (auto simp: js_le_def num_0)
    from that(1) js_add_nonneg [OF that(2) this] show ?thesis by (rule js_le_trans)
  qed
  have z: "js_le (num 0) (num 0)" by (simp add: js_le_def num_0)
  show ?thesis
    using exec_cases [of v now rnd k s] assms
    by (auto simp: add z split: if_splits)
qed

lemma exec_total_mono:
  assumes "amount_nonneg k" and "is_create k \<longrightarrow> j \<noteq> generateId rnd"
    and "s j = Some c" and "js_le (totalDonations c) (goal c)"
    and "exec v now rnd k s j = Some c'"
  shows "js_le (totalDonations c) (totalDonations c')"
proof -
  from assms(4) have r: "js_le (totalDonations c) (totalDonations c)"
    by (simp add: js_le_def)
  have add: "js_le t (js_add t a)" if "js_le (num 0) a" "js_le (js_add t a) g" for t a g
    using that by (intro js_add_nonneg_accepted) (simp_all add: js_le_def)
  show ?thesis
    using exec_cases [of v now rnd k s] assms(1,2,3,5) r
    by (auto simp: add split: if_splits)
qed

lemma run_within_goal:
  assumes "\<forall>i c. s i = Some c \<longrightarrow> js_le (totalDonations c) (goal c)"
    and "run v tr s j = Some c'"
  shows "js_le (totalDonations c') (goal c')"
  using assms
proof (induction tr arbitrary: s)
  case Nil
  then show ?case by simp
next
  case (Cons x tr)
  obtain now rnd k where x: "x = (now, rnd, k)" by (cases x)
  have "\<forall>i c. exec v now rnd k s i = Some c \<longrightarrow> js_le (totalDonations c) (goal c)"
    using exec_within_goal [OF Cons.prems(1)] by blast
  from Cons.IH [OF this] Cons.prems(2) x show ?case by simp
qed

lemma run_nonneg:
  assumes "\<forall>i c. s i = Some c \<longrightarrow> js_le (num 0) (totalDonations c)"
    and "amounts_nonneg tr" and "run v tr s j = Some c'"
  shows "js_le (num 0) (totalDonations c')"
  using assms
proof (induction tr arbitrary: s)
  case Nil
  then show ?case by simp
next
  case (Cons x tr)
  obtain now rnd k where x: "x = (now, rnd, k)" by (cases x)
  from Cons.prems(2) x have k: "amount_nonneg k" and tr: "amounts_nonneg tr"
    by (simp_all add: amounts_nonneg_def)
  have "\<forall>i c. exec v now rnd k s i = Some c \<longrightarrow> js_le (num 0) (totalDonations c)"
    using exec_nonneg [OF Cons.prems(1) k] by blast
  from Cons.IH [OF this tr] Cons.prems(3) x show ?case by simp
qed

lemma run_trace_donate:
  "run Part_000 trace_donate Map.empty = Map.empty(id12345 \<mapsto> camp_sixty)"
  by (simp add: trace_donate_def create_fresh donateCampaign_cases)
     (simp add: camp_sixty_def camp_fresh_def js_eval)

text \<open>
  C3. In every storage reached from the empty one by calls of the exported functions:
  a record that \<open>createCampaign\<close> returns has \<open>totalDonations = 0\<close>; every stored record
  has \<open>totalDonations \<le> goal\<close>; when no donation of the trace had a negative amount,
  every stored record has \<open>0 \<le> totalDonations\<close>; and a further call that is not a
  donation of a negative amount does not lower the total of a record that stays under
  its identifier (a \<open>createCampaign\<close> that generates this very identifier apart).
\<close>

theorem totalDonations_reachable:
  assumes "s = run v tr Map.empty"
  shows "(\<forall>now rnd p t d g dl c s'.
            createCampaign v now rnd p t d g dl s = (Inr c, s') \<longrightarrow> totalDonations c = num 0)
       \<and> (\<forall>i c. s i = Some c \<longrightarrow>
            js_le (totalDonations c) (goal c)
            \<and> (amounts_nonneg tr \<longrightarrow> js_le (num 0) (totalDonations c)))
       \<and> (\<forall>now rnd k i c c'.
            amount_nonneg k \<longrightarrow> (is_create k \<longrightarrow> i \<noteq> generateId rnd) \<longrightarrow>
            s i = Some c \<longrightarrow> exec v now rnd k s i = Some c' \<longrightarrow>
            js_le (totalDonations c) (totalDonations c'))"
proof (intro conjI allI impI)
  fix now rnd p t d g dl c s'
  assume "createCampaign v now rnd p t d g dl s = (Inr c, s')"
  from createCampaign_Inr(1) [OF this] show "totalDonations c = num 0" by simp
next
  fix i c
  assume "s i = Some c"
  with assms have r: "run v tr Map.empty i = Some c" by simp
  have e: "\<forall>i c. (Map.empty :: storage) i = Some c \<longrightarrow> js_le (totalDonations c) (goal c)"
    by simp
  from run_within_goal [OF e r] show "js_le (totalDonations c) (goal c)" .
  assume nn: "amounts_nonneg tr"
  have e0: "\<forall>i c. (Map.empty :: storage) i = Some c \<longrightarrow> js_le (num 0) (totalDonations c)"
    by simp
  from run_nonneg [OF e0 nn r] show "js_le (num 0) (totalDonations c)" .
next
  fix now rnd k i c c'
  assume k: "amount_nonneg k" "is_create k \<longrightarrow> i \<noteq> generateId rnd"
    and c: "s i = Some c" and c': "exec v now rnd k s i = Some c'"
  from c assms have r: "run v tr Map.empty i = Some c" by simp
  have e: "\<forall>i c. (Map.empty :: storage) i = Some c \<longrightarrow> js_le (totalDonations c) (goal c)"
    by simp
  from run_within_goal [OF e r] have "js_le (totalDonations c) (goal c)" .
  from exec_total_mono [OF k c this c'] show "js_le (totalDonations c) (totalDonations c')" .
qed

theorem totalDonations_reachable_witness:
  "run Part_000 trace_donate Map.empty id12345 = Some camp_sixty
   \<and> amounts_nonneg trace_donate
   \<and> js_le (totalDonations camp_sixty) (goal camp_sixty)
   \<and> js_le (num 0) (totalDonations camp_sixty)
   \<and> amount_nonneg (DonateCampaign id12345 alice (num 40))
   \<and> exec Part_000 (num 3000) (str ''0.5'') (DonateCampaign id12345 alice (num 40))
        (run Part_000 trace_donate Map.empty) id12345 = Some camp_full
   \<and> js_le (totalDonations camp_sixty) (totalDonations camp_full)"
proof -
  note r = run_trace_donate
  then have h1: "run Part_000 trace_donate Map.empty id12345 = Some camp_sixty" by simp
  have h2: "amounts_nonneg trace_donate"
    by (simp add: amounts_nonneg_def trace_donate_def js_eval)
  have h3: "amount_nonneg (DonateCampaign id12345 alice (num 40))" by (simp add: js_eval)
  have h4: "is_create (DonateCampaign id12345 alice (num 40))
              \<longrightarrow> id12345 \<noteq> generateId (str ''0.5'')"
    by simp
  have h5: "exec Part_000 (num 3000) (str ''0.5'') (DonateCampaign id12345 alice (num 40))
              (run Part_000 trace_donate Map.empty) id12345 = Some camp_full"
    by (simp add: r donateCampaign_cases camp_sixty_def camp_fresh_def camp_full_def js_eval)
  note t = totalDonations_reachable
             [where s = "run Part_000 trace_donate Map.empty" and v = Part_000
                and tr = trace_donate, OF refl]
  from t h1 h2 have a: "js_le (totalDonations camp_sixty) (goal camp_sixty)"
    and b: "js_le (num 0) (totalDonations camp_sixty)"
    by blast+
  from t h3 h4 h1 h5 have c: "js_le (totalDonations camp_sixty) (totalDonations camp_full)"
    by blast
  from h1 h2 h3 h5 a b c show ?thesis by simp
qed

text \<open>
  C3, as stated, fails: after creating a campaign with goal 100 and donating \<open>- 5\<close> to
  it, the stored total is \<open>- 5\<close>. It is below zero and below the total the campaign
  had when it was created.
\<close>

theorem totalDonations_negative_counterexample:
  "run Part_000 trace_negative Map.empty id12345 = Some camp_negative
   \<and> js_lt (totalDonations camp_negative) (num 0)
   \<and> run Part_000 (take 1 trace_negative) Map.empty id12345 = Some camp_fresh
   \<and> js_lt (totalDonations camp_negative) (totalDonations camp_fresh)"
  by (simp add: trace_negative_def create_fresh donateCampaign_cases)
     (simp add: camp_negative_def camp_fresh_def js_eval)

lemma js_lt_le_trans: "js_lt a b \<Longrightarrow> js_le b c \<Longrightarrow> js_lt a c"
  by (auto simp: js_lt_def js_le_def)

lemma round64_eqI:
  assumes "round_fin x = y" and "is_double y" and "y \<noteq> 0"
  shows "round64 x = num y"
  using assms by (auto simp: round64_def Let_def num_double is_double_def)

text \<open>Rounding a concrete real: \<open>k\<close> is its binary exponent.\<close>

lemma round_fin_eval:
  assumes "2 powi k \<le> \<bar>x\<bar>" and "\<bar>x\<bar> < 2 powi (k + 1)" and "e = max (k - 52) (- 1074)"
  shows "round_fin x = of_int (round_even (x / 2 powi e)) * 2 powi e"
proof -
  have "0 < (2::real) powi k" by simp
  with assms(1) have "0 < \<bar>x\<bar>" by linarith
  then have "x \<noteq> 0" by simp
  moreover have "expo x = e"
    using ilog2_eqI [OF assms(1,2)] assms(3) by (simp add: expo_def)
  ultimately show ?thesis by (simp add: round_fin_def)
qed

text \<open>
  C4. In index.ts \<open>createCampaign\<close> rejects every Principal object as proposer with
  \<open>InvalidProposer\<close> and stores nothing, whatever the other inputs are. In the other
  two files the same call, with a title and a description that are not empty after
  trimming and a goal above zero, returns a record with \<open>totalDonations = 0\<close>, no donors
  and \<open>deadline = now + deadlineDays * 86400 * 10^9\<close> (in doubles, the products taken
  from the left) and stores it under its identifier.
\<close>

theorem createCampaign_index_rejects_principal:
  "createCampaign Index_ts now rnd (PObject x) t d g dl s = (Inl InvalidProposer, s)
   \<and> (v \<noteq> Index_ts \<longrightarrow> trim t \<noteq> [] \<longrightarrow> trim d \<noteq> [] \<longrightarrow> js_gt g (num 0) \<longrightarrow>
        (\<exists>c. createCampaign v now rnd (PObject x) t d g dl s = (Inr c, s(id_campaign c \<mapsto> c))
           \<and> totalDonations c = num 0 \<and> donors c = []
           \<and> deadline c = js_add now (js_mul (js_mul dl (num 86400)) (num 1000000000))
           \<and> id_campaign c = generateId rnd \<and> proposer c = PObject x \<and> title c = t
           \<and> description c = d \<and> goal c = g))"
proof (intro conjI impI)
  show "createCampaign Index_ts now rnd (PObject x) t d g dl s = (Inl InvalidProposer, s)"
    by (simp add: createCampaign_def proposer_rejected_def)
next
  assume v: "v \<noteq> Index_ts" and t: "trim t \<noteq> []" and d: "trim d \<noteq> []"
    and g: "js_gt g (num 0)"
  from v have p: "\<not> proposer_rejected v (PObject x)"
    by (cases v) (simp_all add: proposer_rejected_def)
  show "\<exists>c. createCampaign v now rnd (PObject x) t d g dl s = (Inr c, s(id_campaign c \<mapsto> c))
           \<and> totalDonations c = num 0 \<and> donors c = []
           \<and> deadline c = js_add now (js_mul (js_mul dl (num 86400)) (num 1000000000))
           \<and> id_campaign c = generateId rnd \<and> proposer c = PObject x \<and> title c = t
           \<and> description c = d \<and> goal c = g"
    using createCampaign_valid [OF p t d g, of now rnd dl s] by simp
qed

theorem createCampaign_index_rejects_principal_witness:
  "createCampaign Index_ts (num 1000) (str ''0.1234567'') bob (str ''Well'') (str ''A well'')
      (num 100) (num 1) Map.empty = (Inl InvalidProposer, Map.empty)
   \<and> Part_000 \<noteq> Index_ts \<and> trim (str ''Well'') \<noteq> [] \<and> trim (str ''A well'') \<noteq> []
   \<and> js_gt (num 100) (num 0)
   \<and> createCampaign Part_000 (num 1000) (str ''0.1234567'') bob (str ''Well'') (str ''A well'')
        (num 100) (num 1) Map.empty = (Inr camp_bob, Map.empty(id12345 \<mapsto> camp_bob))
   \<and> totalDonations camp_bob = num 0 \<and> donors camp_bob = []
   \<and> deadline camp_bob = num 86400000001000"
proof -
  have h1: "Part_000 \<noteq> Index_ts" by simp
  have h2: "js_gt (num 100) (num 0)" by (simp add: js_eval)
  have dl: "js_add (num 1000) (js_mul (js_mul (num 1) (num 86400)) (num 1000000000))
              = num 86400000001000"
    by (simp add: js_eval)
  note t = createCampaign_index_rejects_principal
             [where now = "num 1000" and rnd = "str ''0.1234567''" and x = "''2vxsx-fae''"
                and t = "str ''Well''" and d = "str ''A well''" and g = "num 100"
                and dl = "num 1" and s = Map.empty and v = Part_000]
  from t have a: "createCampaign Index_ts (num 1000) (str ''0.1234567'') bob (str ''Well'')
      (str ''A well'') (num 100) (num 1) Map.empty = (Inl InvalidProposer, Map.empty)"
    by (simp add: bob_def)
  from t h1 h2 trim_samples(1,2) obtain c where
    "createCampaign Part_000 (num 1000) (str ''0.1234567'') bob (str ''Well'') (str ''A well'')
        (num 100) (num 1) Map.empty = (Inr c, Map.empty(id_campaign c \<mapsto> c))"
    "totalDonations c = num 0" "donors c = []" "deadline c = num 86400000001000"
    "id_campaign c = id12345" "proposer c = bob" "title c = str ''Well''"
    "description c = str ''A well''" "goal c = num 100"
    unfolding bob_def dl generateId_sample by blast
  moreover from this have "c = camp_bob" by (simp add: camp_bob_def)
  ultimately have b: "createCampaign Part_000 (num 1000) (str ''0.1234567'') bob (str ''Well'')
      (str ''A well'') (num 100) (num 1) Map.empty = (Inr camp_bob, Map.empty(id12345 \<mapsto> camp_bob))"
    by simp
  from a b h1 h2 trim_samples(1,2) show ?thesis by (simp add: camp_bob_def)
qed

text \<open>
  C10. \<open>createCampaign\<close> does not look at the sign of \<open>deadlineDays\<close>. With a negative
  value, a finite clock reading (\<^verbatim>\<open>Number(ic.time())\<close> always is) and inputs that pass
  the guards, the call succeeds and stores a campaign whose deadline is not later than
  the clock reading of its creation. Every donation to it at a later reading fails
  with \<open>CampaignEnded\<close> and changes nothing, also in any later storage that holds a
  record with this deadline under the identifier. When the stored deadline is strictly
  earlier than the reading of the creation, so does every donation from that reading on.
\<close>

theorem createCampaign_negative_days:
  assumes "js_lt dl (num 0)" and "js_finite now"
    and "\<not> proposer_rejected v p" and "trim t \<noteq> []" and "trim d \<noteq> []"
    and "js_gt g (num 0)"
  shows "\<exists>c s'. createCampaign v now rnd p t d g dl s = (Inr c, s')
            \<and> s' (id_campaign c) = Some c
            \<and> deadline c = js_add now (js_mul (js_mul dl (num 86400)) (num 1000000000))
            \<and> js_le (deadline c) now
            \<and> (\<forall>now' d' a. js_gt now' now \<longrightarrow>
                  donateCampaign now' (id_campaign c) d' a s' = (Inl CampaignEnded, s'))
            \<and> (js_lt (deadline c) now \<longrightarrow>
                  (\<forall>now' d' a. js_ge now' now \<longrightarrow>
                     donateCampaign now' (id_campaign c) d' a s' = (Inl CampaignEnded, s')))
            \<and> (\<forall>s'' c'' now' d' a.
                  s'' (id_campaign c) = Some c'' \<longrightarrow> deadline c'' = deadline c \<longrightarrow>
                  js_gt now' now \<longrightarrow>
                  donateCampaign now' (id_campaign c) d' a s'' = (Inl CampaignEnded, s''))"
proof -
  let ?dl = "js_add now (js_mul (js_mul dl (num 86400)) (num 1000000000))"
  have pos: "js_lt (num 0) (num 86400)" "js_finite (num 86400)"
    "js_lt (num 0) (num 1000000000)" "js_finite (num 1000000000)"
    by (simp_all add: js_eval)
  from assms(1) have "js_le dl (num 0)" by (rule js_lt_imp_le)
  then have "js_le (js_mul dl (num 86400)) (num 0)"
    using pos(1,2) by (rule js_mul_nonpos)
  then have ns: "js_le (js_mul (js_mul dl (num 86400)) (num 1000000000)) (num 0)"
    using pos(3,4) by (rule js_mul_nonpos)
  from assms(2) have "now \<noteq> NaN" "now \<noteq> PosInf" by auto
  with ns have le: "js_le ?dl now" by (intro js_add_nonpos) simp_all
  have later: "js_gt now' ?dl" if "js_gt now' now" for now'
    using le that unfolding js_gt_def by (rule js_le_lt_trans)
  have from_now: "js_gt now' ?dl" if "js_lt ?dl now" "js_ge now' now" for now'
    using that unfolding js_gt_def js_ge_def by (rule js_lt_le_trans)
  show ?thesis
    using createCampaign_valid [OF assms(3-6), of now rnd dl s] le later from_now
    by (simp add: donateCampaign_cases)
qed

lemma create_past:
  "createCampaign Part_001 (num 1000) (str ''0.1234567'') bob (str ''Well'') (str ''A well'')
      (num 100) (num (- 1)) s = (Inr camp_past, s(id12345 \<mapsto> camp_past))"
proof -
  have g: "js_gt (num 100) (num 0)" by (simp add: js_eval)
  have p: "\<not> proposer_rejected Part_001 bob" by (simp add: proposer_rejected_def bob_def)
  have dl: "js_add (num 1000) (js_mul (js_mul (num (- 1)) (num 86400)) (num 1000000000))
              = num (- 86399999999000)"
    by (simp add: js_eval)
  show ?thesis
    by (simp add: createCampaign_valid [OF p trim_samples(1,2) g] generateId_sample dl
                  camp_past_def)
qed

theorem createCampaign_negative_days_witness:
  "js_lt (num (- 1)) (num 0) \<and> js_finite (num 1000) \<and> \<not> proposer_rejected Part_001 bob
   \<and> trim (str ''Well'') \<noteq> [] \<and> trim (str ''A well'') \<noteq> [] \<and> js_gt (num 100) (num 0)
   \<and> createCampaign Part_001 (num 1000) (str ''0.1234567'') bob (str ''Well'') (str ''A well'')
        (num 100) (num (- 1)) Map.empty = (Inr camp_past, Map.empty(id12345 \<mapsto> camp_past))
   \<and> js_le (deadline camp_past) (num 1000)
   \<and> donateCampaign (num 1001) id12345 alice (num 10) (Map.empty(id12345 \<mapsto> camp_past))
       = (Inl CampaignEnded, Map.empty(id12345 \<mapsto> camp_past))"
proof -
  have h1: "js_lt (num (- 1)) (num 0)" by (simp add: js_eval)
  have h2: "js_finite (num 1000)" by (simp add: js_eval)
  have h3: "\<not> proposer_rejected Part_001 bob" by (simp add: proposer_rejected_def bob_def)
  have h6: "js_gt (num 100) (num 0)" by (simp add: js_eval)
  have later: "js_gt (num 1001) (num 1000)" by (simp add: js_eval)
  note e = create_past [of Map.empty]
  from createCampaign_negative_days
         [where v = Part_001 and now = "num 1000" and rnd = "str ''0.1234567''"
            and s = Map.empty, OF h1 h2 h3 trim_samples(1,2) h6]
  obtain c s' where
    c: "createCampaign Part_001 (num 1000) (str ''0.1234567'') bob (str ''Well'') (str ''A well'')
          (num 100) (num (- 1)) Map.empty = (Inr c, s')"
    and dl: "js_le (deadline c) (num 1000)"
    and dn: "\<forall>now' d' a. js_gt now' (num 1000) \<longrightarrow>
               donateCampaign now' (id_campaign c) d' a s' = (Inl CampaignEnded, s')"
    by blast
  from c e have ce: "c = camp_past" "s' = Map.empty(id12345 \<mapsto> camp_past)" by simp_all
  have idc: "id_campaign camp_past = id12345" by (simp add: camp_past_def)
  from dn later
  have "donateCampaign (num 1001) (id_campaign c) alice (num 10) s' = (Inl CampaignEnded, s')"
    by blast
  with ce idc dl e h1 h2 h3 h6 trim_samples(1,2) show ?thesis by simp
qed

lemma is_double_samples:
  "is_double (- (1 / 2 ^ 40))" "is_double (- (675 / 2 ^ 33))"
  "is_double (- (1318359375 / 2 ^ 24))" "is_double 1700000000000000000"
  "is_double 9007199254740992"
  using is_double_dyadic [of "- 1" "- 40"] is_double_dyadic [of "- 675" "- 33"]
    is_double_dyadic [of "- 1318359375" "- 24"] is_double_dyadic [of 12969970703125 17]
    is_double_dyadic [of 4503599627370496 1]
  by simp_all

text \<open>
  \<open>- (2 powi - 40)\<close> days are \<open>- 1318359375 / 2 ^ 24\<close> nanoseconds, about \<open>- 78.6\<close>,
  and 1.7e18 minus that many nanoseconds rounds back to 1.7e18.
\<close>

lemma tiny_nanoSeconds:
  "js_mul (js_mul tiny_days (num 86400)) (num 1000000000) = num (- (1318359375 / 2 ^ 24))"
proof -
  have "js_mul tiny_days (num 86400) = num (- (675 / 2 ^ 33))"
    using is_double_samples(1,2) by (simp add: tiny_days_def js_eval)
  moreover have "js_mul (num (- (675 / 2 ^ 33))) (num 1000000000)
                   = num (- (1318359375 / 2 ^ 24))"
    using is_double_samples(2,3) by (simp add: js_eval)
  ultimately show ?thesis by simp
qed

lemma tiny_deadline:
  "js_add now_2023 (js_mul (js_mul tiny_days (num 86400)) (num 1000000000)) = now_2023"
proof -
  have r: "round_fin (1700000000000000000 - 1318359375 / 2 ^ 24) = 1700000000000000000"
    using round_fin_eval [of 60 "1700000000000000000 - 1318359375 / 2 ^ 24" 8]
    by (simp add: round_even_def)
  have "js_add now_2023 (js_mul (js_mul tiny_days (num 86400)) (num 1000000000))
          = js_add (num 1700000000000000000) (num (- (1318359375 / 2 ^ 24)))"
    by (simp only: tiny_nanoSeconds now_2023_def)
  also have "\<dots> = round64 (1700000000000000000 - 1318359375 / 2 ^ 24)"
    using is_double_samples(3,4) by (simp add: js_add_def num_double)
  also have "\<dots> = num 1700000000000000000"
    by (rule round64_eqI [OF r is_double_samples(4)]) simp
  finally show ?thesis by (simp only: now_2023_def)
qed

text \<open>
  C10, as stated, fails for small negative day counts: with \<open>- (2 powi - 40)\<close> days at
  the clock reading 1.7e18 the stored deadline is the reading itself, not an earlier
  one, and a donation at that reading is accepted.
\<close>

theorem createCampaign_tiny_days_counterexample:
  "js_lt tiny_days (num 0)
   \<and> createCampaign Part_000 now_2023 (str ''0.1234567'') bob (str ''Well'') (str ''A well'')
        (num 100) tiny_days Map.empty = (Inr camp_tiny, Map.empty(id12345 \<mapsto> camp_tiny))
   \<and> deadline camp_tiny = now_2023
   \<and> \<not> js_lt (deadline camp_tiny) now_2023
   \<and> accepted (fst (donateCampaign now_2023 id12345 alice (num 10)
                      (Map.empty(id12345 \<mapsto> camp_tiny))))"
proof -
  have neg: "js_lt tiny_days (num 0)"
    using is_double_samples(1) by (simp add: tiny_days_def js_eval)
  have g: "js_gt (num 100) (num 0)" by (simp add: js_eval)
  have p: "\<not> proposer_rejected Part_000 bob" by (simp add: proposer_rejected_def bob_def)
  have c: "createCampaign Part_000 now_2023 (str ''0.1234567'') bob (str ''Well'')
             (str ''A well'') (num 100) tiny_days Map.empty
             = (Inr camp_tiny, Map.empty(id12345 \<mapsto> camp_tiny))"
    by (simp add: createCampaign_valid [OF p trim_samples(1,2) g] generateId_sample
                  tiny_deadline camp_tiny_def)
  have d: "deadline camp_tiny = now_2023" by (simp add: camp_tiny_def)
  have fits: "js_ge (num 100) (js_add (num 0) (num 10))" by (simp add: js_eval)
  have a: "accepted (fst (donateCampaign now_2023 id12345 alice (num 10)
                      (Map.empty(id12345 \<mapsto> camp_tiny))))"
    using fits by (simp add: donateCampaign_cases camp_tiny_def js_gt_def accepted_def)
  from neg c d a show ?thesis by simp
qed

text \<open>
  In doubles \<open>2 ^ 53 + 1\<close> is \<open>2 ^ 53\<close>: a donation of 1 to a campaign whose total and
  goal are \<open>2 ^ 53\<close> is accepted and leaves the total where it was.
\<close>

lemma donate_rounded_sum:
  "js_add (num 9007199254740992) (num 1) = num 9007199254740992"
  "donateCampaign (num 1000) id12345 bob (num 1) (Map.empty(id12345 \<mapsto> camp_2_53))
     = (Inr (camp_2_53\<lparr> donors := [\<lparr> id_donor = bob, amount = num 1 \<rparr>] \<rparr>),
        Map.empty(id12345 \<mapsto> camp_2_53\<lparr> donors := [\<lparr> id_donor = bob, amount = num 1 \<rparr>] \<rparr>))"
proof -
  have r: "round_fin 9007199254740993 = 9007199254740992"
    using round_fin_eval [of 53 9007199254740993 1] by (simp add: round_even_def)
  have "round64 9007199254740993 = num 9007199254740992"
    by (rule round64_eqI [OF r is_double_samples(5)]) simp
  then show s: "js_add (num 9007199254740992) (num 1) = num 9007199254740992"
    using is_double_samples(5) by (simp add: js_add_def num_double)
  have le: "js_ge (num 9007199254740992) (num 9007199254740992)"
    "\<not> js_gt (num 1000) (num 5000)"
    using is_double_samples(5) by (simp_all add: js_eval)
  show "donateCampaign (num 1000) id12345 bob (num 1) (Map.empty(id12345 \<mapsto> camp_2_53))
     = (Inr (camp_2_53\<lparr> donors := [\<lparr> id_donor = bob, amount = num 1 \<rparr>] \<rparr>),
        Map.empty(id12345 \<mapsto> camp_2_53\<lparr> donors := [\<lparr> id_donor = bob, amount = num 1 \<rparr>] \<rparr>))"
    using le by (simp add: donateCampaign_cases camp_2_53_def s)
qed


text \<open>
  The literals \<^verbatim>\<open>0.1\<close> and \<^verbatim>\<open>0.2\<close> are the doubles \<open>3602879701896397 / 2 ^ 55\<close>
  and \<open>3602879701896397 / 2 ^ 54\<close>. Their sum is \<open>5404319552844596 / 2 ^ 54\<close>
  (printed \<^verbatim>\<open>0.30000000000000004\<close>), not the double \<open>5404319552844595 / 2 ^ 54\<close> of
  the literal \<^verbatim>\<open>0.3\<close>.
\<close>

lemma literal_tenth: "num (1 / 10) = num (3602879701896397 / 2 ^ 55)"
proof -
  have r: "round_fin (1 / 10) = 3602879701896397 / 2 ^ 55"
    using round_fin_eval [of "- 4" "1 / 10" "- 56"] by (simp add: round_even_def)
  have d: "is_double (3602879701896397 / 2 ^ 55)"
    using is_double_dyadic [of 3602879701896397 "- 55"] by simp
  have "round64 (1 / 10) = num (3602879701896397 / 2 ^ 55)"
    by (rule round64_eqI [OF r d]) simp
  then show ?thesis by (simp only: num_def)
qed

lemma literal_fifth: "num (1 / 5) = num (3602879701896397 / 2 ^ 54)"
proof -
  have r: "round_fin (1 / 5) = 3602879701896397 / 2 ^ 54"
    using round_fin_eval [of "- 3" "1 / 5" "- 55"] by (simp add: round_even_def)
  have d: "is_double (3602879701896397 / 2 ^ 54)"
    using is_double_dyadic [of 3602879701896397 "- 54"] by simp
  have "round64 (1 / 5) = num (3602879701896397 / 2 ^ 54)"
    by (rule round64_eqI [OF r d]) simp
  then show ?thesis by (simp only: num_def)
qed

lemma literal_three_tenths: "num (3 / 10) = num (5404319552844595 / 2 ^ 54)"
proof -
  have r: "round_fin (3 / 10) = 5404319552844595 / 2 ^ 54"
    using round_fin_eval [of "- 2" "3 / 10" "- 54"] by (simp add: round_even_def)
  have d: "is_double (5404319552844595 / 2 ^ 54)"
    using is_double_dyadic [of 5404319552844595 "- 54"] by simp
  have "round64 (3 / 10) = num (5404319552844595 / 2 ^ 54)"
    by (rule round64_eqI [OF r d]) simp
  then show ?thesis by (simp only: num_def)
qed

lemma sum_tenths: "js_add (num (1 / 10)) (num (1 / 5)) = num (5404319552844596 / 2 ^ 54)"
  and "js_add (num (1 / 10)) (num (1 / 5)) \<noteq> num (3 / 10)"
proof -
  have d: "is_double (3602879701896397 / 2 ^ 55)" "is_double (3602879701896397 / 2 ^ 54)"
    "is_double (5404319552844596 / 2 ^ 54)" "is_double (5404319552844595 / 2 ^ 54)"
    using is_double_dyadic [of 3602879701896397 "- 55"]
      is_double_dyadic [of 3602879701896397 "- 54"]
      is_double_dyadic [of 5404319552844596 "- 54"]
      is_double_dyadic [of 5404319552844595 "- 54"]
    by simp_all
  have r: "round_fin (3602879701896397 / 2 ^ 55 + 3602879701896397 / 2 ^ 54)
             = 5404319552844596 / 2 ^ 54"
    using round_fin_eval [of "- 2" "3602879701896397 / 2 ^ 55 + 3602879701896397 / 2 ^ 54" "- 54"]
    by (simp add: round_even_def)
  have "js_add (num (1 / 10)) (num (1 / 5))
          = round64 (3602879701896397 / 2 ^ 55 + 3602879701896397 / 2 ^ 54)"
    unfolding literal_tenth literal_fifth using d(1,2) by (simp add: js_add_def num_double)
  also have "\<dots> = num (5404319552844596 / 2 ^ 54)"
    by (rule round64_eqI [OF r d(3)]) simp
  finally show s: "js_add (num (1 / 10)) (num (1 / 5)) = num (5404319552844596 / 2 ^ 54)" .
  show "js_add (num (1 / 10)) (num (1 / 5)) \<noteq> num (3 / 10)"
    unfolding s literal_three_tenths using d(3,4) by (simp add: num_double)
qed


end
